theory Spec2Isabelle
  imports Complex_Main "HOL-Library.Sublist"
begin

section \<open>Python values\<close>

text \<open>
  The client moves Python objects around: query parameter values, decoded JSON, the
  records a schema produces. They are modelled by one datatype. A dictionary is an
  association list in insertion order (Python dictionaries keep it, and the query string
  is built by iterating over one). A float is the real number it denotes; the model does
  no floating point arithmetic.
\<close>

datatype tzinfo = timezone_utc

text \<open>
  A \<^verbatim>\<open>datetime.datetime\<close> with whole seconds (the microsecond is 0 for every
  integer timestamp). \<open>tzinfo = None\<close> is a naive datetime.
\<close>

record datetime =
  year :: int
  month :: int
  day :: int
  hour :: int
  minute :: int
  second :: int
  tzinfo :: "tzinfo option"

datatype pyval =
    PNone
  | PBool bool
  | PInt int
  | PFloat real
  | PStr string
  | PList "pyval list"
  | PDict "(string \<times> pyval) list"
  | PDatetime datetime

type_synonym pydict = "(string \<times> pyval) list"

text \<open>\<^verbatim>\<open>d[k] = v\<close>: an existing key keeps its place, a new one goes last.\<close>

fun dict_set :: "string \<Rightarrow> pyval \<Rightarrow> pydict \<Rightarrow> pydict" where
  "dict_set k v [] = [(k, v)]"
| "dict_set k v ((k', v') # d) = (if k' = k then (k, v) # d else (k', v') # dict_set k v d)"

text \<open>\<^verbatim>\<open>d.update(e)\<close>\<close>

definition dict_update :: "pydict \<Rightarrow> pydict \<Rightarrow> pydict" where
  "dict_update d e = fold (\<lambda>(k, v). dict_set k v) e d"

text \<open>\<^verbatim>\<open>d.pop(k)\<close>, for the dictionary left behind; \<open>None\<close> is the KeyError.\<close>

definition dict_pop :: "string \<Rightarrow> pydict \<Rightarrow> pydict option" where
  "dict_pop k d = (if k \<in> fst ` set d then Some (filter (\<lambda>kv. fst kv \<noteq> k) d) else None)"

text \<open>\<^verbatim>\<open>sep.join(xs)\<close>\<close>

fun join :: "string \<Rightarrow> string list \<Rightarrow> string" where
  "join sep [] = []"
| "join sep [x] = x"
| "join sep (x # y # xs) = x @ sep @ join sep (y # xs)"

text \<open>Truth value of an object, as \<^verbatim>\<open>x or y\<close> tests it.\<close>

fun truthy :: "pyval \<Rightarrow> bool" where
  "truthy PNone = False"
| "truthy (PBool b) = b"
| "truthy (PInt i) = (i \<noteq> 0)"
| "truthy (PFloat x) = (x \<noteq> 0)"
| "truthy (PStr s) = (s \<noteq> [])"
| "truthy (PList xs) = (xs \<noteq> [])"
| "truthy (PDict d) = (d \<noteq> [])"
| "truthy (PDatetime d) = True"

section \<open>exceptions.py, and the exceptions of Python, requests and marshmallow that the client meets\<close>

text \<open>
  The error dictionary of a marshmallow \<^verbatim>\<open>ValidationError\<close>, flattened: each entry
  is a message with the path of keys it stands under (field names, list indices).
\<close>

datatype key = Key string | Index nat

type_synonym messages = "(key list \<times> string) list"

datatype error =
    OpenWeatherMapClientError string
  | OWMClientKeyNotDefinedError
  | OWMClientUnknownServiceNameError string
  | OWMClientAccessLimitationError string
  | OWMClientValidationError messages
  | ValidationError messages
  | HTTPError int
  | ValueError string
  | TypeError string
  | KeyError string
  | AttributeError string
  | UnboundLocalError
  | RequestException string

text \<open>
  What the client takes from the Python runtime and its libraries, whose code is not part
  of the repository, where the model does not spell it out:
  \<open>py_str\<close> is \<^verbatim>\<open>str(v)\<close>, which \<^verbatim>\<open>'{}'.format(v)\<close> uses;
  \<open>urljoin\<close> is \<^verbatim>\<open>urllib.parse.urljoin\<close>;
  \<open>int_of_str\<close> is \<^verbatim>\<open>int(s)\<close> on a string (\<open>None\<close> for its ValueError);
  \<open>py_float\<close> is \<^verbatim>\<open>float(v)\<close>;
  \<open>from_iso_datetime\<close> is marshmallow's ISO 8601 parser (\<open>None\<close> when it rejects the string);
  \<open>fromtimestamp_local\<close> is \<^verbatim>\<open>datetime.fromtimestamp(t)\<close> without a time zone and
  \<open>mktime\<close> its inverse, both in the platform's local time;
  \<open>fromtimestamp_float\<close> is \<^verbatim>\<open>datetime.fromtimestamp(x, tz=utc)\<close> for a float.
\<close>

record builtins =
  py_str :: "pyval \<Rightarrow> string"
  urljoin :: "string \<Rightarrow> string \<Rightarrow> string"
  int_of_str :: "string \<Rightarrow> int option"
  py_float :: "pyval \<Rightarrow> error + real"
  from_iso_datetime :: "string \<Rightarrow> pyval option"
  fromtimestamp_local :: "pyval \<Rightarrow> error + datetime"
  fromtimestamp_float :: "real \<Rightarrow> error + datetime"
  mktime :: "datetime \<Rightarrow> int"

section \<open>utils.py\<close>

subsection \<open>Python's datetime: ordinals and the proleptic Gregorian calendar\<close>

text \<open>
  \<open>dt_from_timestamp\<close> is one call of \<^verbatim>\<open>datetime.fromtimestamp\<close>. For an integer
  timestamp and UTC the standard library splits the timestamp into days and seconds of
  the day and converts the day number to year, month and day; \<^verbatim>\<open>timestamp()\<close> of an
  aware datetime goes back through \<^verbatim>\<open>toordinal()\<close>. The functions below follow the
  library's own (\<^verbatim>\<open>_is_leap\<close>, \<^verbatim>\<open>_days_before_year\<close>, \<^verbatim>\<open>_days_before_month\<close>,
  \<^verbatim>\<open>_ymd2ord\<close>, \<^verbatim>\<open>_ord2ymd\<close>), the leading underscore dropped.
\<close>

definition DAYS_IN_MONTH :: "int list" where
  "DAYS_IN_MONTH = [- 1, 31, 28, 31, 30, 31, 30, 31, 31, 30, 31, 30, 31]"

definition DAYS_BEFORE_MONTH :: "int list" where
  "DAYS_BEFORE_MONTH = [- 1, 0, 31, 59, 90, 120, 151, 181, 212, 243, 273, 304, 334]"

definition is_leap :: "int \<Rightarrow> bool" where
  "is_leap y = (y mod 4 = 0 \<and> (y mod 100 \<noteq> 0 \<or> y mod 400 = 0))"

definition days_before_year :: "int \<Rightarrow> int" where
  "days_before_year y = (let y1 = y - 1 in y1 * 365 + y1 div 4 - y1 div 100 + y1 div 400)"

definition days_before_month :: "int \<Rightarrow> int \<Rightarrow> int" where
  "days_before_month y m = DAYS_BEFORE_MONTH ! nat m + (if m > 2 \<and> is_leap y then 1 else 0)"

definition ymd2ord :: "int \<Rightarrow> int \<Rightarrow> int \<Rightarrow> int" where
  "ymd2ord y m d = days_before_year y + days_before_month y m + d"

definition DI400Y :: int where "DI400Y = 146097"
definition DI100Y :: int where "DI100Y = 36524"
definition DI4Y :: int where "DI4Y = 1461"

definition ord2ymd :: "int \<Rightarrow> int \<times> int \<times> int" where
  "ord2ymd ordinal =
     (let n = ordinal - 1;
          n400 = n div DI400Y; n = n mod DI400Y;
          y = n400 * 400 + 1;
          n100 = n div DI100Y; n = n mod DI100Y;
          n4 = n div DI4Y; n = n mod DI4Y;
          n1 = n div 365; n = n mod 365;
          y = y + (n100 * 100 + n4 * 4 + n1)
      in if n1 = 4 \<or> n100 = 4 then (y - 1, 12, 31)
         else
           (let leapyear = (n1 = 3 \<and> (n4 \<noteq> 24 \<or> n100 = 3));
                m = (n + 50) div 32;
                preceding = DAYS_BEFORE_MONTH ! nat m + (if m > 2 \<and> leapyear then 1 else 0)
            in if preceding > n
               then (let m' = m - 1;
                         preceding' = preceding
                           - (DAYS_IN_MONTH ! nat m' + (if m' = 2 \<and> leapyear then 1 else 0))
                     in (y, m', n - preceding' + 1))
               else (y, m, n - preceding + 1)))"

text \<open>
  \<^verbatim>\<open>datetime.fromtimestamp(t, tz=timezone.utc)\<close> for an integer \<open>t\<close>: the date of
  \<^verbatim>\<open>gmtime\<close> is that of day \<open>719163 + t div 86400\<close> (719163 is the ordinal of
  1970-01-01), and the constructor refuses a year outside \<^verbatim>\<open>MINYEAR..MAXYEAR\<close> with
  \<^verbatim>\<open>ValueError\<close> (for timestamps still farther out the library raises
  \<^verbatim>\<open>OverflowError\<close> or \<^verbatim>\<open>OSError\<close> instead; the model has one error for all).
  This is the conversion of a POSIX platform, where \<^verbatim>\<open>gmtime\<close> takes negative
  timestamps.
\<close>

definition utc_fromtimestamp :: "int \<Rightarrow> error + datetime" where
  "utc_fromtimestamp t =
     (let (y, m, d) = ord2ymd (719163 + t div 86400); ss = t mod 86400
      in if 1 \<le> y \<and> y \<le> 9999
         then Inr \<lparr> year = y, month = m, day = d, hour = ss div 3600,
                    minute = ss mod 3600 div 60, second = ss mod 60,
                    tzinfo = Some timezone_utc \<rparr>
         else Inl (ValueError ''year is out of range''))"

definition fromtimestamp :: "builtins \<Rightarrow> pyval \<Rightarrow> tzinfo option \<Rightarrow> error + datetime" where
  "fromtimestamp B t tz =
     (case tz of
        None \<Rightarrow> fromtimestamp_local B t
      | Some timezone_utc \<Rightarrow>
          (case t of
             PInt i \<Rightarrow> utc_fromtimestamp i
           | PBool b \<Rightarrow> utc_fromtimestamp (if b then 1 else 0)
           | PFloat x \<Rightarrow> fromtimestamp_float B x
           | _ \<Rightarrow> Inl (TypeError ''an integer is required'')))"

definition toordinal :: "datetime \<Rightarrow> int" where
  "toordinal d = ymd2ord (year d) (month d) (day d)"

text \<open>
  \<^verbatim>\<open>datetime.timestamp()\<close>: for an aware datetime
  \<^verbatim>\<open>(self - _EPOCH).total_seconds()\<close>, a whole number of seconds here.
\<close>

definition timestamp :: "builtins \<Rightarrow> datetime \<Rightarrow> int" where
  "timestamp B d =
     (case tzinfo d of
        None \<Rightarrow> mktime B d
      | Some timezone_utc \<Rightarrow>
          (toordinal d - 719163) * 86400 + (second d + minute d * 60 + hour d * 3600))"

subsection \<open>dt\_from\_timestamp\<close>

definition dt_from_timestamp :: "builtins \<Rightarrow> pyval \<Rightarrow> tzinfo option \<Rightarrow> error + datetime" where
  "dt_from_timestamp B timestamp_arg ts_tz = fromtimestamp B timestamp_arg ts_tz"

section \<open>marshmallow: loading data with a schema\<close>

text \<open>
  The schemas are marshmallow 2 schemas (\<^verbatim>\<open>load_from\<close>, and \<^verbatim>\<open>load(...)[0]\<close>
  taking the data out of the \<^verbatim>\<open>(data, errors)\<close> pair that \<^verbatim>\<open>load\<close> returns). A
  field is declared with its class and the keyword arguments the repository uses; a schema
  is the list of its fields. \<open>Method_from_ts\<close> is
  \<^verbatim>\<open>fields.Method(deserialize='_from_ts')\<close>.
\<close>

datatype field_type =
    Integer
  | Float
  | String
  | DateTime
  | Method_from_ts
  | Nested "field list"
  | List field_type
and field = Field string field_type "string option" bool bool

text \<open>
  \<open>Field name class load_from required allow_none\<close>. No field of the repository is
  declared \<^verbatim>\<open>required\<close>.
\<close>

abbreviation attr :: "string \<Rightarrow> field_type \<Rightarrow> field" where
  "attr name ftype \<equiv> Field name ftype None False False"

abbreviation attr_from :: "string \<Rightarrow> field_type \<Rightarrow> string \<Rightarrow> field" where
  "attr_from name ftype src \<equiv> Field name ftype (Some src) False False"

text \<open>
  What deserializing one value gives: the value, a \<^verbatim>\<open>ValidationError\<close> (its messages
  and the data it carries), or another exception, which marshmallow does not catch.
\<close>

datatype conv = Ok pyval | Invalid messages "pyval option" | Raised error

definition fail :: "string \<Rightarrow> conv" where
  "fail msg = Invalid [([], msg)] None"

text \<open>\<^verbatim>\<open>fields.Integer\<close>: \<^verbatim>\<open>int(value)\<close>, a TypeError or ValueError being invalid.\<close>

fun Integer_deserialize :: "builtins \<Rightarrow> pyval \<Rightarrow> conv" where
  "Integer_deserialize B PNone = Ok PNone"
| "Integer_deserialize B (PInt i) = Ok (PInt i)"
| "Integer_deserialize B (PBool b) = Ok (PInt (if b then 1 else 0))"
| "Integer_deserialize B (PFloat x) = Ok (PInt (if 0 \<le> x then \<lfloor>x\<rfloor> else \<lceil>x\<rceil>))"
| "Integer_deserialize B (PStr s) =
     (case int_of_str B s of Some i \<Rightarrow> Ok (PInt i) | None \<Rightarrow> fail ''Not a valid integer.'')"
| "Integer_deserialize B _ = fail ''Not a valid integer.''"

definition Float_deserialize :: "builtins \<Rightarrow> pyval \<Rightarrow> conv" where
  "Float_deserialize B v =
     (if v = PNone then Ok PNone
      else case py_float B v of
             Inr x \<Rightarrow> Ok (PFloat x)
           | Inl (TypeError _) \<Rightarrow> fail ''Not a valid number.''
           | Inl (ValueError _) \<Rightarrow> fail ''Not a valid number.''
           | Inl exc \<Rightarrow> Raised exc)"

fun String_deserialize :: "pyval \<Rightarrow> conv" where
  "String_deserialize (PStr s) = Ok (PStr s)"
| "String_deserialize _ = fail ''Not a valid string.''"

fun DateTime_deserialize :: "builtins \<Rightarrow> pyval \<Rightarrow> conv" where
  "DateTime_deserialize B (PStr s) =
     (if s = [] then fail ''Not a valid datetime.''
      else case from_iso_datetime B s of
             Some d \<Rightarrow> Ok d
           | None \<Rightarrow> fail ''Not a valid datetime.'')"
| "DateTime_deserialize B _ = fail ''Not a valid datetime.''"

text \<open>
  The static method \<open>_from_ts\<close> of \<open>ForecastDataSchema\<close>,
  \<open>CurrentWeatherSysDataSchema\<close> and \<open>CurrentWeatherSchema\<close>:
  \<^verbatim>\<open>return dt_from_timestamp(timestamp, ts_tz=dt.timezone.utc)\<close>
\<close>

definition from_ts :: "builtins \<Rightarrow> pyval \<Rightarrow> error + datetime" where
  "from_ts B timestamp_arg = dt_from_timestamp B timestamp_arg (Some timezone_utc)"

text \<open>
  \<^verbatim>\<open>fields.Method\<close>: the method is called on the raw value; only an
  \<^verbatim>\<open>AttributeError\<close> is swallowed (the raw value is then returned).
\<close>

definition Method_deserialize :: "builtins \<Rightarrow> pyval \<Rightarrow> conv" where
  "Method_deserialize B v =
     (case from_ts B v of
        Inr d \<Rightarrow> Ok (PDatetime d)
      | Inl (AttributeError _) \<Rightarrow> Ok v
      | Inl exc \<Rightarrow> Raised exc)"

definition under :: "key \<Rightarrow> messages \<Rightarrow> messages" where
  "under k msgs = map (\<lambda>(path, msg). (k # path, msg)) msgs"

text \<open>
  \<^verbatim>\<open>fields.List\<close>: every element is deserialized; a failed one leaves the data of its
  error in the result and its messages under its index.
\<close>

fun collect :: "nat \<Rightarrow> conv list \<Rightarrow> error + (pyval list \<times> messages)" where
  "collect idx [] = Inr ([], [])"
| "collect idx (Raised exc # cs) = Inl exc"
| "collect idx (Ok v # cs) =
     (case collect (Suc idx) cs of
        Inl exc \<Rightarrow> Inl exc
      | Inr (result, errors) \<Rightarrow> Inr (v # result, errors))"
| "collect idx (Invalid msgs dat # cs) =
     (case collect (Suc idx) cs of
        Inl exc \<Rightarrow> Inl exc
      | Inr (result, errors) \<Rightarrow>
          Inr ((case dat of None \<Rightarrow> PNone | Some v \<Rightarrow> v) # result,
               under (Index idx) msgs @ errors))"

text \<open>
  \<^verbatim>\<open>call_and_store\<close>: a value is stored under the attribute name; the messages of a
  \<^verbatim>\<open>ValidationError\<close> are stored under the key that was read, and the value is then
  \<^verbatim>\<open>err.data or missing\<close>.
\<close>

definition store :: "string \<Rightarrow> string \<Rightarrow> conv option \<Rightarrow> pydict \<times> messages \<Rightarrow> pydict \<times> messages" where
  "store attr_name field_name c rest =
     (case c of
        None \<Rightarrow> rest
      | Some (Ok v) \<Rightarrow> ((attr_name, v) # fst rest, snd rest)
      | Some (Invalid msgs dat) \<Rightarrow>
          ((case dat of
              None \<Rightarrow> fst rest
            | Some v \<Rightarrow> if truthy v then (attr_name, v) # fst rest else fst rest),
           under (Key field_name) msgs @ snd rest)
      | Some (Raised exc) \<Rightarrow> rest)"

text \<open>
  The raw value of a field: \<^verbatim>\<open>data.get(attr_name, missing)\<close> and, when that is missing
  and the field has a \<^verbatim>\<open>load_from\<close>, \<^verbatim>\<open>data.get(load_from, missing)\<close>; with it the
  key that was read. \<open>None\<close> is \<^verbatim>\<open>missing\<close>.
\<close>

definition get_value :: "pydict \<Rightarrow> string \<Rightarrow> string option \<Rightarrow> string \<times> pyval option" where
  "get_value data attr_name load_from =
     (case map_of data attr_name of
        Some v \<Rightarrow> (attr_name, Some v)
      | None \<Rightarrow>
          (case load_from of
             Some src \<Rightarrow> (src, map_of data src)
           | None \<Rightarrow> (attr_name, None)))"

text \<open>
  \<open>deserialize\<close> is \<^verbatim>\<open>Field._deserialize\<close>, by field class. \<open>unmarshal\<close> is the loop
  of \<^verbatim>\<open>Unmarshaller.deserialize\<close> over the declared fields of one mapping: a missing
  value is skipped unless the field is required; \<^verbatim>\<open>None\<close> is an error unless the field
  allows it.
\<close>

fun deserialize :: "builtins \<Rightarrow> field_type \<Rightarrow> pyval \<Rightarrow> conv"
and unmarshal :: "builtins \<Rightarrow> field list \<Rightarrow> pydict \<Rightarrow> error + (pydict \<times> messages)" where
  "deserialize B Integer v = Integer_deserialize B v"
| "deserialize B Float v = Float_deserialize B v"
| "deserialize B String v = String_deserialize v"
| "deserialize B DateTime v = DateTime_deserialize B v"
| "deserialize B Method_from_ts v = Method_deserialize B v"
| "deserialize B (Nested fs) v =
     (case v of
        PDict d \<Rightarrow>
          (case unmarshal B fs d of
             Inl exc \<Rightarrow> Raised exc
           | Inr (result, errors) \<Rightarrow>
               if errors = [] then Ok (PDict result) else Invalid errors (Some (PDict result)))
      | _ \<Rightarrow> Invalid [([Key ''_schema''], ''Invalid input type.'')] (Some (PDict [])))"
| "deserialize B (List container) v =
     (case v of
        PList xs \<Rightarrow>
          (case collect 0 (map (\<lambda>each. if each = PNone then fail ''Field may not be null.''
                                         else deserialize B container each) xs) of
             Inl exc \<Rightarrow> Raised exc
           | Inr (result, errors) \<Rightarrow>
               if errors = [] then Ok (PList result) else Invalid errors (Some (PList result)))
      | _ \<Rightarrow> fail ''Not a valid list.'')"
| "unmarshal B [] data = Inr ([], [])"
| "unmarshal B (Field attr_name ftype load_from required allow_none # fs) data =
     (let (field_name, raw_value) = get_value data attr_name load_from;
          c = (case raw_value of
                 None \<Rightarrow> if required then Some (fail ''Missing data for required field.'') else None
               | Some v \<Rightarrow>
                   if v = PNone
                   then (if allow_none then Some (Ok PNone) else Some (fail ''Field may not be null.''))
                   else Some (deserialize B ftype v))
      in case c of
           Some (Raised exc) \<Rightarrow> Inl exc
         | _ \<Rightarrow>
             (case unmarshal B fs data of
                Inl exc \<Rightarrow> Inl exc
              | Inr rest \<Rightarrow> Inr (store attr_name field_name c rest)))"

text \<open>One item of the input: a mapping is unmarshalled, \<^verbatim>\<open>None\<close> stays \<^verbatim>\<open>None\<close>.\<close>

definition unmarshal_item :: "builtins \<Rightarrow> field list \<Rightarrow> pyval \<Rightarrow> error + (pyval \<times> messages)" where
  "unmarshal_item B fs v =
     (case v of
        PNone \<Rightarrow> Inr (PNone, [])
      | PDict d \<Rightarrow>
          (case unmarshal B fs d of
             Inl exc \<Rightarrow> Inl exc
           | Inr (result, errors) \<Rightarrow> Inr (PDict result, errors))
      | _ \<Rightarrow> Inr (PDict [], [([Key ''_schema''], ''Invalid input type.'')]))"

fun unmarshal_items :: "builtins \<Rightarrow> field list \<Rightarrow> nat \<Rightarrow> pyval list \<Rightarrow> error + (pyval list \<times> messages)" where
  "unmarshal_items B fs idx [] = Inr ([], [])"
| "unmarshal_items B fs idx (x # xs) =
     (case unmarshal_item B fs x of
        Inl exc \<Rightarrow> Inl exc
      | Inr (result, errors) \<Rightarrow>
          (case unmarshal_items B fs (Suc idx) xs of
             Inl exc \<Rightarrow> Inl exc
           | Inr (results, errors') \<Rightarrow> Inr (result # results, under (Index idx) errors @ errors')))"

text \<open>
  \<^verbatim>\<open>Schema.load(data)\<close> of a schema built with \<^verbatim>\<open>many\<close> and \<^verbatim>\<open>strict\<close>: the pair
  \<^verbatim>\<open>(data, errors)\<close>. The errors are raised as a \<^verbatim>\<open>ValidationError\<close> only by a
  strict schema; otherwise they are the second component of the result.
\<close>

definition load :: "builtins \<Rightarrow> field list \<Rightarrow> bool \<Rightarrow> bool \<Rightarrow> pyval \<Rightarrow> error + (pyval \<times> messages)" where
  "load B fs many strict data =
     (case (if many \<and> data \<noteq> PNone
            then (case data of
                    PList xs \<Rightarrow>
                      (case unmarshal_items B fs 0 xs of
                         Inl exc \<Rightarrow> Inl exc
                       | Inr (results, errors) \<Rightarrow> Inr (PList results, errors))
                  | _ \<Rightarrow> Inr (PList [], [([Key ''_schema''], ''Invalid input type.'')]))
            else unmarshal_item B fs data) of
        Inl exc \<Rightarrow> Inl exc
      | Inr (result, errors) \<Rightarrow>
          if errors \<noteq> [] \<and> strict then Inl (ValidationError errors) else Inr (result, errors))"

section \<open>schemas.py\<close>

definition CityCoordSchema :: "field list" where
  "CityCoordSchema =
     [attr_from ''latitude'' Float ''lat'',
      attr_from ''longitude'' Float ''lon'']"

definition CitySchema :: "field list" where
  "CitySchema =
     [attr ''id'' Integer,
      attr ''name'' String,
      attr ''country'' String,
      attr ''coord'' (Nested CityCoordSchema)]"

text \<open>\<^verbatim>\<open>Meta.exclude = ('temp_kf',)\<close> names a key that is not a declared field.\<close>

definition MainDataSchema :: "field list" where
  "MainDataSchema =
     [attr ''temp'' Float,
      attr ''temp_min'' Float,
      attr ''temp_max'' Float,
      attr ''humidity'' Float,
      attr ''pressure'' Float,
      attr ''sea_level'' Float,
      attr ''grnd_level'' Float]"

definition WindDataSchema :: "field list" where
  "WindDataSchema =
     [attr_from ''direction'' Float ''deg'',
      attr ''speed'' Float]"

definition WeatherDataSchema :: "field list" where
  "WeatherDataSchema =
     [attr ''id'' Integer,
      attr ''main'' String,
      attr ''description'' String,
      attr ''icon'' String]"

definition CloudDataSchema :: "field list" where
  "CloudDataSchema = [attr ''clouds_all'' Integer]"

definition RainDataSchema :: "field list" where
  "RainDataSchema = [attr ''rain_3h'' Float]"

definition SnowDataSchema :: "field list" where
  "SnowDataSchema = [attr ''snow_3h'' Float]"

definition ForecastDataSchema :: "field list" where
  "ForecastDataSchema =
     [attr_from ''dt_value'' Method_from_ts ''dt'',
      attr_from ''dt_timestamp'' Integer ''dt'',
      attr ''dt_txt'' String,
      attr ''main'' (Nested MainDataSchema),
      attr ''weather'' (List (Nested WeatherDataSchema)),
      attr ''clouds'' (Nested CloudDataSchema),
      attr ''wind'' (Nested WindDataSchema),
      attr ''rain'' (Nested RainDataSchema),
      attr ''snow'' (Nested SnowDataSchema)]"

definition ForecastSchema :: "field list" where
  "ForecastSchema =
     [attr ''city'' (Nested CitySchema),
      attr ''cnt'' Integer,
      attr_from ''datas'' (List (Nested ForecastDataSchema)) ''list'']"

definition CurrentWeatherSysDataSchema :: "field list" where
  "CurrentWeatherSysDataSchema =
     [attr ''country'' String,
      attr ''sunrise'' Method_from_ts,
      attr ''sunset'' Method_from_ts,
      attr_from ''sunrise_timestamp'' Integer ''sunrise'',
      attr_from ''sunset_timestamp'' Integer ''sunset'']"

definition CurrentWeatherSchema :: "field list" where
  "CurrentWeatherSchema =
     [attr_from ''city_id'' Integer ''id'',
      attr_from ''city_name'' String ''name'',
      attr_from ''city_coord'' (Nested CityCoordSchema) ''coord'',
      attr_from ''dt_value'' Method_from_ts ''dt'',
      attr_from ''dt_timestamp'' Integer ''dt'',
      attr ''main'' (Nested MainDataSchema),
      attr ''weather'' (List (Nested WeatherDataSchema)),
      attr ''clouds'' (Nested CloudDataSchema),
      attr ''wind'' (Nested WindDataSchema),
      Field ''rain'' (Nested RainDataSchema) None False True,
      Field ''snow'' (Nested SnowDataSchema) None False True,
      attr ''sys'' (Nested CurrentWeatherSysDataSchema)]"

definition CurrentWeatherSearchSchema :: "field list" where
  "CurrentWeatherSearchSchema =
     [attr_from ''status_code'' Integer ''cod'',
      attr ''calc_time'' Float,
      attr ''cnt'' Integer,
      attr_from ''datas'' (List (Nested CurrentWeatherSchema)) ''list'']"

definition UVIndexSchema :: "field list" where
  "UVIndexSchema =
     [attr_from ''latitude'' Float ''lat'',
      attr_from ''longitude'' Float ''lon'',
      attr_from ''date'' DateTime ''date_iso'',
      attr ''date_iso'' String,
      attr_from ''dt_timestamp'' Integer ''date'',
      attr ''value'' Float]"

definition AirPollutionLocationSchema :: "field list" where
  "AirPollutionLocationSchema =
     [attr ''latitude'' Float,
      attr ''longitude'' Float]"

definition AirPollutionBaseSchema :: "field list" where
  "AirPollutionBaseSchema =
     [attr ''time'' DateTime,
      attr_from ''time_iso8601'' String ''time'',
      attr ''location'' (Nested AirPollutionLocationSchema)]"

definition AirPollutionCarbonMonoxydeDataSchema :: "field list" where
  "AirPollutionCarbonMonoxydeDataSchema =
     [attr ''precision'' Float,
      attr ''pressure'' Float,
      attr ''value'' Float]"

definition AirPollutionCarbonMonoxydeSchema :: "field list" where
  "AirPollutionCarbonMonoxydeSchema =
     AirPollutionBaseSchema
     @ [attr_from ''datas'' (List (Nested AirPollutionCarbonMonoxydeDataSchema)) ''data'']"

definition AirPollutionOzoneSchema :: "field list" where
  "AirPollutionOzoneSchema = AirPollutionBaseSchema @ [attr ''data'' Float]"

definition AirPollutionSulfurDioxideDataSchema :: "field list" where
  "AirPollutionSulfurDioxideDataSchema =
     [attr ''precision'' Float,
      attr ''pressure'' Float,
      attr ''value'' Float]"

definition AirPollutionSulfurDioxideSchema :: "field list" where
  "AirPollutionSulfurDioxideSchema =
     AirPollutionBaseSchema
     @ [attr_from ''datas'' (List (Nested AirPollutionSulfurDioxideDataSchema)) ''data'']"

definition AirPollutionNitrogenDioxideItemDataSchema :: "field list" where
  "AirPollutionNitrogenDioxideItemDataSchema =
     [attr ''precision'' Float,
      attr ''value'' Float]"

definition AirPollutionNitrogenDioxideItemSchema :: "field list" where
  "AirPollutionNitrogenDioxideItemSchema =
     [attr ''no2'' (Nested AirPollutionNitrogenDioxideItemDataSchema),
      attr ''no2_strat'' (Nested AirPollutionNitrogenDioxideItemDataSchema),
      attr ''no2_trop'' (Nested AirPollutionNitrogenDioxideItemDataSchema)]"

definition AirPollutionNitrogenDioxideSchema :: "field list" where
  "AirPollutionNitrogenDioxideSchema =
     AirPollutionBaseSchema @ [attr ''data'' (Nested AirPollutionNitrogenDioxideItemSchema)]"

section \<open>api\_client.py\<close>

subsection \<open>The transport\<close>

text \<open>
  \<^verbatim>\<open>requests.get(uri, **kwargs)\<close> either raises or returns a response. The client
  tells \<^verbatim>\<open>ConnectionError\<close> and \<^verbatim>\<open>Timeout\<close> from every other exception. A
  transport gives the outcome of the n-th request of one call of \<open>_get\<close>, n counted
  from 1 as \<^verbatim>\<open>last_uri_call_tries\<close> counts it.
\<close>

record response =
  status_code :: int
  json_body :: "pyval option"

text \<open>
  \<open>json_body\<close> is what \<^verbatim>\<open>response.json()\<close> decodes, \<open>None\<close> when the body is not
  JSON.
\<close>

datatype outcome =
    Raises_ConnectionError string
  | Raises_Timeout string
  | Raises_Other error
  | Returns response

record kwargs =
  params :: "pydict option"
  stream :: "bool option"

type_synonym transport = "string \<Rightarrow> kwargs \<Rightarrow> int \<Rightarrow> outcome"

text \<open>
  \<^verbatim>\<open>Response.raise_for_status()\<close> of requests raises \<^verbatim>\<open>HTTPError\<close> for a client
  error (400 to 499) or a server error (500 to 599) and returns otherwise.
\<close>

definition raise_for_status :: "response \<Rightarrow> error option" where
  "raise_for_status r =
     (if 400 \<le> status_code r \<and> status_code r < 600 then Some (HTTPError (status_code r))
      else None)"

subsection \<open>The client\<close>

definition API_HOST :: string where
  "API_HOST = ''api.openweathermap.org''"

record client =
  api_key :: string
  host :: string
  max_retries :: int
  units :: string
  base_uri :: string
  base_uri_params :: pydict
  last_uri_call :: "string option"
  last_uri_call_tries :: int

text \<open>
  \<^verbatim>\<open>__init__(self, api_key, *, use_ssl=True, host=_API_HOST, max_retries=5,
  units='metric')\<close>. \<^verbatim>\<open>host or _API_HOST\<close> replaces \<^verbatim>\<open>None\<close> and the empty string.
\<close>

definition init :: "string option \<Rightarrow> bool \<Rightarrow> string option \<Rightarrow> int \<Rightarrow> string \<Rightarrow> error + client" where
  "init key use_ssl host_arg max_retries_arg units_arg =
     (case key of
        None \<Rightarrow> Inl OWMClientKeyNotDefinedError
      | Some k \<Rightarrow>
          (let h = (case host_arg of None \<Rightarrow> API_HOST | Some s \<Rightarrow> if s = [] then API_HOST else s)
           in Inr \<lparr> api_key = k, host = h, max_retries = max_retries_arg, units = units_arg,
                    base_uri = ''http'' @ (if use_ssl then ''s'' else []) @ ''://'' @ h,
                    base_uri_params = [(''appid'', PStr k), (''units'', PStr units_arg)],
                    last_uri_call = None, last_uri_call_tries = 0 \<rparr>))"

subsection \<open>\_get: the retry loop\<close>

text \<open>
  The local variable \<^verbatim>\<open>response\<close> of \<open>_get\<close>: not yet assigned, \<^verbatim>\<open>None\<close> after a
  caught exception, or the response received.
\<close>

datatype local_var = Unbound | Bound "response option"

definition limit_message :: string where
  "limit_message = ''For example, OpenWeatherMap free edition onlyallows 60 API calls per minute!''"

text \<open>
  The \<^verbatim>\<open>while not is_success and self.last_uri_call_tries < self.max_retries\<close> loop.
  \<open>tries\<close> is \<^verbatim>\<open>self.last_uri_call_tries\<close>; the first component of the result is
  its value when the loop is left, by \<^verbatim>\<open>raise\<close> (\<open>Inl\<close>) or by its condition
  (\<open>Inr\<close>, with the local variable \<^verbatim>\<open>response\<close>).
\<close>

function get_loop ::
  "int \<Rightarrow> (int \<Rightarrow> outcome) \<Rightarrow> int \<Rightarrow> bool \<Rightarrow> local_var \<Rightarrow> int \<times> (error + local_var)" where
  "get_loop max_tries send tries is_success resp =
    (if \<not> is_success \<and> tries < max_tries then
       (case send (tries + 1) of
          Raises_ConnectionError src_exc \<Rightarrow>
            if tries + 1 \<ge> max_tries
            then (tries + 1, Inl (OpenWeatherMapClientError src_exc))
            else get_loop max_tries send (tries + 1) is_success (Bound None)
        | Raises_Timeout src_exc \<Rightarrow>
            if tries + 1 \<ge> max_tries
            then (tries + 1, Inl (OpenWeatherMapClientError src_exc))
            else get_loop max_tries send (tries + 1) is_success (Bound None)
        | Raises_Other exc \<Rightarrow> (tries + 1, Inl exc)
        | Returns r \<Rightarrow>
            if status_code r \<noteq> 200 then
              (if tries + 1 \<ge> max_tries then
                 (if status_code r = 502
                  then (tries + 1, Inl (OWMClientAccessLimitationError limit_message))
                  else (case raise_for_status r of
                          Some exc \<Rightarrow> (tries + 1, Inl exc)
                        | None \<Rightarrow> get_loop max_tries send (tries + 1) is_success (Bound (Some r))))
               else get_loop max_tries send (tries + 1) is_success (Bound (Some r)))
            else if tries + 1 < max_tries
            then get_loop max_tries send (tries + 1) True (Bound (Some r))
            else get_loop max_tries send (tries + 1) is_success (Bound (Some r)))
     else (tries, Inr resp))"
  by pat_completeness auto
termination
  by (relation "measure (\<lambda>(max_tries, send, tries, is_success, resp). nat (max_tries - tries))")
     auto

declare get_loop.simps [simp del]

text \<open>
  The human readable uri: \<^verbatim>\<open>'?'.join([uri, '&'.join(['{}={}'.format(k, v if k !=
  'appid' else 'XxX') for k, v in kwargs.get('params', {}).items()])])\<close>
\<close>

definition readable_uri :: "builtins \<Rightarrow> string \<Rightarrow> kwargs \<Rightarrow> string" where
  "readable_uri B uri kw =
     join ''?'' [uri, join ''&''
       (map (\<lambda>(k, v). k @ ''='' @ (if k \<noteq> ''appid'' then py_str B v else ''XxX''))
            (case params kw of None \<Rightarrow> [] | Some d \<Rightarrow> d))]"

text \<open>
  \<open>_get(self, uri, **kwargs)\<close>. The client is returned as the call leaves it, also when
  the call raises. \<^verbatim>\<open>return response\<close> with the variable never assigned is Python's
  \<^verbatim>\<open>UnboundLocalError\<close>.
\<close>

definition priv_get ::
  "builtins \<Rightarrow> client \<Rightarrow> string \<Rightarrow> kwargs \<Rightarrow> transport \<Rightarrow> client \<times> (error + response option)" where
  "priv_get B self uri kw tr =
     (let self1 = self\<lparr> last_uri_call := Some (readable_uri B uri kw), last_uri_call_tries := 0 \<rparr>;
          (tries, res) = get_loop (max_retries self1) (tr uri kw) 0 False Unbound;
          self2 = self1\<lparr> last_uri_call_tries := tries \<rparr>
      in case res of
           Inl exc \<Rightarrow> (self2, Inl exc)
         | Inr Unbound \<Rightarrow> (self2, Inl UnboundLocalError)
         | Inr (Bound r) \<Rightarrow> (self2, Inr r))"

subsection \<open>The services\<close>

definition API_DATA_VERSION :: string where
  "API_DATA_VERSION = ''2.5''"

definition API_POLLUTION_VERSION :: string where
  "API_POLLUTION_VERSION = ''v1''"

text \<open>
  An entry of \<open>_AVAILABLE_SERVICES\<close>: \<^verbatim>\<open>'uri'\<close> and, of \<^verbatim>\<open>'schema'\<close>, the
  \<^verbatim>\<open>'name'\<close> and \<^verbatim>\<open>'many'\<close> (the \<^verbatim>\<open>'description'\<close> is documentation).
\<close>

record service_info =
  service_uri :: string
  schema_name :: "field list"
  schema_many :: bool

definition AVAILABLE_SERVICES :: "(string \<times> service_info) list" where
  "AVAILABLE_SERVICES =
     [(''city_list'',
         \<lparr> service_uri = ''http://bulk.openweathermap.org/sample/city.list.json.gz'',
           schema_name = CitySchema, schema_many = True \<rparr>),
      (''forecast_5d'',
         \<lparr> service_uri = ''/data/'' @ API_DATA_VERSION @ ''/forecast'',
           schema_name = ForecastSchema, schema_many = False \<rparr>),
      (''current_weather'',
         \<lparr> service_uri = ''/data/'' @ API_DATA_VERSION @ ''/weather'',
           schema_name = CurrentWeatherSchema, schema_many = False \<rparr>),
      (''current_weather_box'',
         \<lparr> service_uri = ''/data/'' @ API_DATA_VERSION @ ''/box/city'',
           schema_name = CurrentWeatherSearchSchema, schema_many = False \<rparr>),
      (''current_weather_circle'',
         \<lparr> service_uri = ''/data/'' @ API_DATA_VERSION @ ''/find'',
           schema_name = CurrentWeatherSearchSchema, schema_many = False \<rparr>),
      (''current_weather_group'',
         \<lparr> service_uri = ''/data/'' @ API_DATA_VERSION @ ''/group'',
           schema_name = CurrentWeatherSearchSchema, schema_many = False \<rparr>),
      (''air_pollution_carbon_monoxyde'',
         \<lparr> service_uri = ''/pollution/'' @ API_POLLUTION_VERSION @ ''/co/'',
           schema_name = AirPollutionCarbonMonoxydeSchema, schema_many = False \<rparr>),
      (''air_pollution_ozone'',
         \<lparr> service_uri = ''/pollution/'' @ API_POLLUTION_VERSION @ ''/o3/'',
           schema_name = AirPollutionOzoneSchema, schema_many = False \<rparr>),
      (''air_pollution_sulfur_dioxide'',
         \<lparr> service_uri = ''/pollution/'' @ API_POLLUTION_VERSION @ ''/so2/'',
           schema_name = AirPollutionSulfurDioxideSchema, schema_many = False \<rparr>),
      (''air_pollution_nitrogen_dioxide'',
         \<lparr> service_uri = ''/pollution/'' @ API_POLLUTION_VERSION @ ''/no2/'',
           schema_name = AirPollutionNitrogenDioxideSchema, schema_many = False \<rparr>),
      (''uv_index_current'',
         \<lparr> service_uri = ''/data/'' @ API_DATA_VERSION @ ''/uvi'',
           schema_name = UVIndexSchema, schema_many = False \<rparr>),
      (''uv_index_forecast'',
         \<lparr> service_uri = ''/data/'' @ API_DATA_VERSION @ ''/uvi/forecast'',
           schema_name = UVIndexSchema, schema_many = True \<rparr>),
      (''uv_index_historical'',
         \<lparr> service_uri = ''/data/'' @ API_DATA_VERSION @ ''/uvi/history'',
           schema_name = UVIndexSchema, schema_many = True \<rparr>)]"

subsection \<open>\_deserialize\_with\_schema\<close>

text \<open>
  \<^verbatim>\<open>data_schema = data_schema_info['name'](many=data_schema_info['many'])\<close> builds the
  schema without \<^verbatim>\<open>strict\<close>, and no schema class sets it: the schema is not strict.
  \<^verbatim>\<open>data_schema.load(json_data)[0]\<close> is the data of the pair; the
  \<^verbatim>\<open>except ma.ValidationError\<close> clause wraps the error of a load that raises.
\<close>

definition priv_deserialize_with_schema :: "builtins \<Rightarrow> service_info \<Rightarrow> pyval \<Rightarrow> error + pyval" where
  "priv_deserialize_with_schema B data_schema_info json_data =
     (case load B (schema_name data_schema_info) (schema_many data_schema_info) False json_data of
        Inl (ValidationError src_exc) \<Rightarrow> Inl (OWMClientValidationError src_exc)
      | Inl exc \<Rightarrow> Inl exc
      | Inr unmarshal_result \<Rightarrow> Inr (fst unmarshal_result))"

subsection \<open>\_get\_data\<close>

text \<open>
  The query parameters of the request: \<^verbatim>\<open>query_params = params or OrderedDict()\<close>,
  \<^verbatim>\<open>query_params.update(self._base_uri_params)\<close> and, without units,
  \<^verbatim>\<open>query_params.pop('units')\<close>.
\<close>

definition query_params_of :: "client \<Rightarrow> pydict option \<Rightarrow> bool \<Rightarrow> error + pydict" where
  "query_params_of self params_arg with_units =
     (let query_params = dict_update (case params_arg of None \<Rightarrow> [] | Some d \<Rightarrow> d)
                                     (base_uri_params self)
      in if with_units then Inr query_params
         else (case dict_pop ''units'' query_params of
                 None \<Rightarrow> Inl (KeyError ''units'')
               | Some d \<Rightarrow> Inr d))"

text \<open>\<^verbatim>\<open>'error' in resp_data\<close>\<close>

fun contains_error :: "pyval \<Rightarrow> error + bool" where
  "contains_error (PDict d) = Inr (''error'' \<in> fst ` set d)"
| "contains_error (PList xs) = Inr (PStr ''error'' \<in> set xs)"
| "contains_error (PStr s) = Inr (sublist ''error'' s)"
| "contains_error _ = Inl (TypeError ''argument is not iterable'')"

text \<open>
  The separator of the message \<^verbatim>\<open>'{}.. on GET {}'\<close>: the source has the two
  characters U+00C2 and U+00A0 before \<^verbatim>\<open>on\<close>, here in UTF-8.
\<close>

definition on_GET :: string where
  "on_GET = [CHR 0xC3, CHR 0x82, CHR 0xC2, CHR 0xA0] @ ''on GET ''"

definition priv_get_data ::
  "builtins \<Rightarrow> client \<Rightarrow> string \<Rightarrow> string option \<Rightarrow> pydict option \<Rightarrow> bool \<Rightarrow> transport
     \<Rightarrow> client \<times> (error + pyval)" where
  "priv_get_data B self service_name extra_uri params_arg with_units tr =
     (case map_of AVAILABLE_SERVICES service_name of
        None \<Rightarrow>
          (self, Inl (OWMClientUnknownServiceNameError
             (''Invalid service name: '' @ service_name @ ''. Available services are: ''
              @ join '', '' (map fst AVAILABLE_SERVICES))))
      | Some info \<Rightarrow>
          (let uri0 = urljoin B (base_uri self) (service_uri info);
               uri = (case extra_uri of None \<Rightarrow> uri0 | Some extra \<Rightarrow> urljoin B uri0 extra)
           in case query_params_of self params_arg with_units of
                Inl exc \<Rightarrow> (self, Inl exc)
              | Inr query_params \<Rightarrow>
                  (case priv_get B self uri \<lparr> params = Some query_params, stream = None \<rparr> tr of
                     (self', Inl exc) \<Rightarrow> (self', Inl exc)
                   | (self', Inr None) \<Rightarrow> (self', Inl (AttributeError ''json''))
                   | (self', Inr (Some resp)) \<Rightarrow>
                       (case json_body resp of
                          None \<Rightarrow> (self', Inl (ValueError ''No JSON object could be decoded''))
                        | Some resp_data \<Rightarrow>
                            (case contains_error resp_data of
                               Inl exc \<Rightarrow> (self', Inl exc)
                             | Inr True \<Rightarrow>
                                 (case resp_data of
                                    PDict d \<Rightarrow>
                                      (case map_of d ''error'' of
                                         None \<Rightarrow> (self', Inl (KeyError ''error''))
                                       | Some err \<Rightarrow>
                                           (self', Inl (OpenWeatherMapClientError
                                              (py_str B err @ on_GET
                                               @ py_str B (case last_uri_call self' of
                                                             None \<Rightarrow> PNone
                                                           | Some u \<Rightarrow> PStr u)))))
                                  | _ \<Rightarrow> (self', Inl (TypeError ''indices must be integers'')))
                             | Inr False \<Rightarrow>
                                 (self', priv_deserialize_with_schema B info resp_data))))))"

subsection \<open>get\_current\_weather\_within\_box\<close>

text \<open>
  \<open>box\<close> is the caller's list object: \<^verbatim>\<open>box.extend([zoom])\<close> changes it in place,
  so the list is returned as the call leaves it, next to the client and the result.
\<close>

definition get_current_weather_within_box ::
  "builtins \<Rightarrow> client \<Rightarrow> pyval list \<Rightarrow> pyval \<Rightarrow> string option \<Rightarrow> string option \<Rightarrow> transport
     \<Rightarrow> pyval list \<times> client \<times> (error + pyval)" where
  "get_current_weather_within_box B self box zoom cluster lang tr =
     (if length box \<noteq> 4
      then (box, self, Inl (ValueError (''Invalid box: '' @ py_str B (PList box))))
      else
        (let box = box @ [zoom];
             query_params = [(''bbox'', PStr (join '','' (map (py_str B) box)))]
         in if cluster \<in> {None, Some ''yes'', Some ''no''}
            then
              (let query_params =
                     (case cluster of
                        None \<Rightarrow> query_params
                      | Some c \<Rightarrow> dict_update query_params [(''cluster'', PStr c)]);
                   query_params =
                     (case lang of
                        None \<Rightarrow> query_params
                      | Some l \<Rightarrow> dict_update query_params [(''lang'', PStr l)])
               in (box, priv_get_data B self ''current_weather_box'' None (Some query_params) True tr))
            else (box, self, Inl (ValueError
                    (''Invalid cluster: '' @ py_str B (case cluster of None \<Rightarrow> PNone | Some c \<Rightarrow> PStr c)
                     @ ''. Expected are: None/yes/no.'')))))"

subsection \<open>get\_current\_weather\_within\_circle\<close>

definition get_current_weather_within_circle ::
  "builtins \<Rightarrow> client \<Rightarrow> pyval \<Rightarrow> pyval \<Rightarrow> string option \<Rightarrow> int \<Rightarrow> string option \<Rightarrow> transport
     \<Rightarrow> client \<times> (error + pyval)" where
  "get_current_weather_within_circle B self latitude longitude cluster cnt lang tr =
     (let query_params = [(''lat'', latitude), (''lon'', longitude)];
          query_params = dict_set ''cnt'' (PInt (max 0 (min cnt 50))) query_params
      in if cluster \<in> {None, Some ''yes'', Some ''no''}
         then
           (let query_params =
                  (case cluster of
                     None \<Rightarrow> query_params
                   | Some c \<Rightarrow> dict_update query_params [(''cluster'', PStr c)]);
                query_params =
                  (case lang of
                     None \<Rightarrow> query_params
                   | Some l \<Rightarrow> dict_update query_params [(''lang'', PStr l)])
            in priv_get_data B self ''current_weather_circle'' None (Some query_params) True tr)
         else (self, Inl (ValueError
                 (''Invalid cluster: '' @ py_str B (case cluster of None \<Rightarrow> PNone | Some c \<Rightarrow> PStr c)
                  @ ''. Expected are: None/yes/no.''))))"

section \<open>Transports and inputs used as examples\<close>

text \<open>An attempt after which the loop goes on when it was not the last one allowed.\<close>

fun retried :: "outcome \<Rightarrow> bool" where
  "retried (Raises_ConnectionError _) = True"
| "retried (Raises_Timeout _) = True"
| "retried (Raises_Other _) = False"
| "retried (Returns r) = (status_code r \<noteq> 200)"

text \<open>
  A stand-in for the runtime: strings print as themselves, floats and integers convert to
  floats, nothing else is recognised.
\<close>

definition plain_builtins :: builtins where
  "plain_builtins =
     \<lparr> py_str = (\<lambda>v. case v of PStr s \<Rightarrow> s | _ \<Rightarrow> ''?''),
       urljoin = (\<lambda>base rel. base @ rel),
       int_of_str = (\<lambda>s. None),
       py_float = (\<lambda>v. case v of PFloat x \<Rightarrow> Inr x | PInt i \<Rightarrow> Inr (of_int i)
                              | _ \<Rightarrow> Inl (TypeError ''float'')),
       from_iso_datetime = (\<lambda>s. None),
       fromtimestamp_local = (\<lambda>v. Inl (ValueError ''local time'')),
       fromtimestamp_float = (\<lambda>x. Inl (ValueError ''float'')),
       mktime = (\<lambda>d. 0) \<rparr>"

definition with_status :: "int \<Rightarrow> response" where
  "with_status s = \<lparr> status_code = s, json_body = None \<rparr>"

definition test_client :: "int \<Rightarrow> client" where
  "test_client n =
     \<lparr> api_key = ''k'', host = API_HOST, max_retries = n, units = ''metric'',
       base_uri = ''https://api.openweathermap.org'',
       base_uri_params = [(''appid'', PStr ''k''), (''units'', PStr ''metric'')],
       last_uri_call = None, last_uri_call_tries = 0 \<rparr>"

definition no_kwargs :: kwargs where
  "no_kwargs = \<lparr> params = None, stream = None \<rparr>"

text \<open>Fails twice, then answers 200.\<close>

definition fails_twice :: transport where
  "fails_twice uri kw n =
     (if n < 3 then Raises_ConnectionError ''refused'' else Returns (with_status 200))"

text \<open>Answers 502 to every request.\<close>

definition always_502 :: transport where
  "always_502 uri kw n = Returns (with_status 502)"

text \<open>Answers 404 to the first request and 200 to the next ones.\<close>

definition not_found_then_ok :: transport where
  "not_found_then_ok uri kw n = Returns (with_status (if n = 1 then 404 else 200))"

text \<open>Answers 201 to every request.\<close>

definition always_201 :: transport where
  "always_201 uri kw n = Returns (with_status 201)"

text \<open>The same client with another API key.\<close>

definition other_client :: "int \<Rightarrow> client" where
  "other_client n =
     \<lparr> api_key = ''secret'', host = API_HOST, max_retries = n, units = ''metric'',
       base_uri = ''https://api.openweathermap.org'',
       base_uri_params = [(''appid'', PStr ''secret''), (''units'', PStr ''metric'')],
       last_uri_call = None, last_uri_call_tries = 0 \<rparr>"

text \<open>
  A transport that answers as \<open>tr\<close> does when the query parameters of the request carry
  \<open>cnt = c\<close>, and refuses every other request.
\<close>

definition only_with_cnt :: "int \<Rightarrow> transport \<Rightarrow> transport" where
  "only_with_cnt c tr uri kw n =
     (case params kw of
        None \<Rightarrow> Raises_Other (RequestException ''no cnt'')
      | Some q \<Rightarrow>
          if map_of q ''cnt'' = Some (PInt c) then tr uri kw n
          else Raises_Other (RequestException ''another cnt''))"


text \<open>
  A transport that refuses the requests whose query parameters carry \<open>cnt = c\<close>, and
  answers 200 to every other request.
\<close>

definition refuses_cnt :: "int \<Rightarrow> transport" where
  "refuses_cnt c uri kw n =
     (case params kw of
        None \<Rightarrow> Returns (with_status 200)
      | Some q \<Rightarrow>
          if map_of q ''cnt'' = Some (PInt c) then Raises_Other (RequestException ''refused'')
          else Returns (with_status 200))"


text \<open>A dictionary with the value of \<^verbatim>\<open>appid\<close> blanked: what the readable uri depends on.\<close>

definition masked :: "pydict \<Rightarrow> pydict" where
  "masked d = map (\<lambda>(k, v). (k, if k = ''appid'' then PNone else v)) d"

section \<open>Notions used in the statements\<close>

text \<open>The attribute name a field is declared under.\<close>

fun declared_name :: "field \<Rightarrow> string" where
  "declared_name (Field name ftype load_from required allow_none) = name"

text \<open>
  What \<open>unmarshal\<close> makes of the raw value of one field; \<open>None\<close> when the field is
  skipped.
\<close>

definition field_conv :: "builtins \<Rightarrow> field_type \<Rightarrow> bool \<Rightarrow> bool \<Rightarrow> pyval option \<Rightarrow> conv option" where
  "field_conv B t rq an rv =
     (case rv of
        None \<Rightarrow> if rq then Some (fail ''Missing data for required field.'') else None
      | Some v \<Rightarrow>
          if v = PNone
          then (if an then Some (Ok PNone) else Some (fail ''Field may not be null.''))
          else Some (deserialize B t v))"

text \<open>
  The fields of schemas.py declared with \<^verbatim>\<open>fields.Method(deserialize='_from_ts')\<close>:
  the schema, the field, the \<^verbatim>\<open>fields.Integer\<close> field declared beside it for the
  timestamp itself, and the key of the raw mapping that both read.
\<close>

definition timestamp_fields :: "(field list \<times> string \<times> string \<times> string) list" where
  "timestamp_fields =
     [(ForecastDataSchema, ''dt_value'', ''dt_timestamp'', ''dt''),
      (CurrentWeatherSysDataSchema, ''sunrise'', ''sunrise_timestamp'', ''sunrise''),
      (CurrentWeatherSysDataSchema, ''sunset'', ''sunset_timestamp'', ''sunset''),
      (CurrentWeatherSchema, ''dt_value'', ''dt_timestamp'', ''dt'')]"

text \<open>
  The schema classes of schemas.py, in the order of the file, and the names of the fields
  a schema declares with the converter.
\<close>

definition all_schemas :: "field list list" where
  "all_schemas =
     [CityCoordSchema, CitySchema, MainDataSchema, WindDataSchema, WeatherDataSchema,
      CloudDataSchema, RainDataSchema, SnowDataSchema, ForecastDataSchema, ForecastSchema,
      CurrentWeatherSysDataSchema, CurrentWeatherSchema, CurrentWeatherSearchSchema,
      UVIndexSchema, AirPollutionLocationSchema, AirPollutionBaseSchema,
      AirPollutionCarbonMonoxydeDataSchema, AirPollutionCarbonMonoxydeSchema,
      AirPollutionOzoneSchema, AirPollutionSulfurDioxideDataSchema,
      AirPollutionSulfurDioxideSchema, AirPollutionNitrogenDioxideItemDataSchema,
      AirPollutionNitrogenDioxideItemSchema, AirPollutionNitrogenDioxideSchema]"

fun from_ts_names :: "field list \<Rightarrow> string list" where
  "from_ts_names [] = []"
| "from_ts_names (Field name ftype load_from required allow_none # fs) =
     (if ftype = Method_from_ts then name # from_ts_names fs else from_ts_names fs)"

text \<open>The entry of \<^verbatim>\<open>'city_list'\<close> in \<open>_AVAILABLE_SERVICES\<close>.\<close>

definition city_list_info :: service_info where
  "city_list_info =
     \<lparr> service_uri = ''http://bulk.openweathermap.org/sample/city.list.json.gz'',
       schema_name = CitySchema, schema_many = True \<rparr>"

text \<open>A city list whose only city has \<^verbatim>\<open>"id": null\<close>.\<close>

definition cities_with_null_id :: pyval where
  "cities_with_null_id = PList [PDict [(''id'', PNone), (''name'', PStr ''Montcuq'')]]"

text \<open>2017-07-14 02:40:00 UTC, the instant of the timestamp 1500000000.\<close>

definition instant_2017 :: datetime where
  "instant_2017 = \<lparr> year = 2017, month = 7, day = 14, hour = 2, minute = 40, second = 0,
     tzinfo = Some timezone_utc \<rparr>"

section \<open>The retry loop: properties\<close>

lemma get_loop_exit:
  "is_success \<or> max_tries \<le> tries \<Longrightarrow> get_loop max_tries send tries is_success resp = (tries, Inr resp)"
  by (subst get_loop.simps) auto

lemma get_loop_ok:
  assumes "tries < max_tries" and "send (tries + 1) = Returns r" and "status_code r = 200"
  shows "get_loop max_tries send tries False resp = (tries + 1, Inr (Bound (Some r)))"
  using assms by (subst get_loop.simps) (auto simp: get_loop_exit)

lemma get_loop_retry:
  assumes "tries + 1 < max_tries" and "retried (send (tries + 1))"
  shows "\<exists>resp'. get_loop max_tries send tries False resp = get_loop max_tries send (tries + 1) False resp'"
proof (cases "send (tries + 1)")
  case (Raises_ConnectionError m)
  with assms show ?thesis by (subst get_loop.simps) auto
next
  case (Raises_Timeout m)
  with assms show ?thesis by (subst get_loop.simps) auto
next
  case (Raises_Other e)
  with assms show ?thesis by simp
next
  case (Returns r)
  with assms show ?thesis by (subst get_loop.simps) auto
qed

lemma get_loop_first_ok:
  assumes "tries < k" and "k \<le> max_tries"
    and "send k = Returns r" and "status_code r = 200"
    and "\<forall>j. tries < j \<and> j < k \<longrightarrow> retried (send j)"
  shows "get_loop max_tries send tries False resp = (k, Inr (Bound (Some r)))"
  using assms
proof (induction "nat (k - tries)" arbitrary: tries resp)
  case 0
  then show ?case by simp
next
  case (Suc n)
  show ?case
  proof (cases "tries + 1 = k")
    case True
    with Suc.prems show ?thesis by (auto simp: get_loop_ok)
  next
    case False
    with Suc.prems have lt: "tries + 1 < k" by simp
    with Suc.prems have "retried (send (tries + 1))" by simp
    with lt Suc.prems obtain resp' where
      step: "get_loop max_tries send tries False resp = get_loop max_tries send (tries + 1) False resp'"
      using get_loop_retry [of tries max_tries send resp] by auto
    have "get_loop max_tries send (tries + 1) False resp' = (k, Inr (Bound (Some r)))"
      using Suc.hyps Suc.prems lt by (intro Suc.hyps(1)) auto
    with step show ?thesis by simp
  qed
qed

text \<open>
  C1. Whenever an attempt receives a response with status 200, \<open>_get\<close> returns that
  response, whatever the index of the attempt, the last allowed one included: if attempt
  \<open>k\<close> (at most \<open>max_retries\<close>) is answered with status 200 and every attempt before it
  was a connection error, a timeout or another status, the call returns that response and
  has counted \<open>k\<close> attempts.
\<close>

theorem get_returns_200_of_any_attempt:
  assumes "1 \<le> k" and "k \<le> max_retries self"
    and "tr uri kw k = Returns r" and "status_code r = 200"
    and "\<forall>j. 1 \<le> j \<and> j < k \<longrightarrow> retried (tr uri kw j)"
  shows "snd (priv_get B self uri kw tr) = Inr (Some r)
       \<and> last_uri_call_tries (fst (priv_get B self uri kw tr)) = k"
proof -
  have "get_loop (max_retries self) (tr uri kw) 0 False Unbound = (k, Inr (Bound (Some r)))"
    using assms by (intro get_loop_first_ok) auto
  then show ?thesis by (simp add: priv_get_def)
qed

text \<open>
  With \<open>max_retries = 3\<close> and a transport that fails twice and then answers 200, the 200
  response is returned and the attempt count is 3.
\<close>

theorem get_returns_200_of_any_attempt_witness:
  "snd (priv_get plain_builtins (test_client 3) ''u'' no_kwargs fails_twice) = Inr (Some (with_status 200))
 \<and> last_uri_call_tries (fst (priv_get plain_builtins (test_client 3) ''u'' no_kwargs fails_twice)) = 3"
  using get_returns_200_of_any_attempt
    [of 3 "test_client 3" fails_twice "''u''" no_kwargs "with_status 200" plain_builtins]
  by (simp add: test_client_def fails_twice_def with_status_def)

lemma get_loop_all_502:
  assumes "tries < max_tries"
    and "\<forall>j. tries < j \<and> j \<le> max_tries \<longrightarrow> (\<exists>r. send j = Returns r \<and> status_code r = 502)"
  shows "get_loop max_tries send tries False resp
       = (max_tries, Inl (OWMClientAccessLimitationError limit_message))"
  using assms
proof (induction "nat (max_tries - tries)" arbitrary: tries resp)
  case 0
  then show ?case by simp
next
  case (Suc n)
  from Suc.prems obtain r where r: "send (tries + 1) = Returns r" "status_code r = 502"
    by (metis add.commute zless_add1_eq zle_add1_eq_le less_add_one less_le_not_le linorder_not_less)
  show ?case
  proof (cases "tries + 1 = max_tries")
    case True
    with r Suc.prems show ?thesis by (subst get_loop.simps) auto
  next
    case False
    with Suc.prems have lt: "tries + 1 < max_tries" by simp
    have "get_loop max_tries send tries False resp
        = get_loop max_tries send (tries + 1) False (Bound (Some r))"
      using r lt by (subst get_loop.simps) auto
    also have "\<dots> = (max_tries, Inl (OWMClientAccessLimitationError limit_message))"
      using Suc.hyps Suc.prems lt by (intro Suc.hyps(1)) auto
    finally show ?thesis .
  qed
qed

text \<open>
  C2. For every \<open>max_retries\<close> of at least 1, against a transport that answers 502 to
  every attempt, \<open>_get\<close> raises \<^verbatim>\<open>OWMClientAccessLimitationError\<close>, and the attempt
  count is then exactly \<open>max_retries\<close>: no earlier 502 raised.
\<close>

theorem get_raises_limitation_after_all_attempts:
  assumes "1 \<le> max_retries self"
    and "\<forall>j. 1 \<le> j \<and> j \<le> max_retries self \<longrightarrow>
           (\<exists>r. tr uri kw j = Returns r \<and> status_code r = 502)"
  shows "snd (priv_get B self uri kw tr) = Inl (OWMClientAccessLimitationError limit_message)
       \<and> last_uri_call_tries (fst (priv_get B self uri kw tr)) = max_retries self"
proof -
  have "get_loop (max_retries self) (tr uri kw) 0 False Unbound
      = (max_retries self, Inl (OWMClientAccessLimitationError limit_message))"
    using assms by (intro get_loop_all_502) auto
  then show ?thesis by (simp add: priv_get_def)
qed

theorem get_raises_limitation_after_all_attempts_witness:
  "snd (priv_get plain_builtins (test_client 4) ''u'' no_kwargs always_502)
     = Inl (OWMClientAccessLimitationError limit_message)
 \<and> last_uri_call_tries (fst (priv_get plain_builtins (test_client 4) ''u'' no_kwargs always_502)) = 4"
  using get_raises_limitation_after_all_attempts
    [of "test_client 4" always_502 "''u''" no_kwargs plain_builtins]
  by (simp add: test_client_def always_502_def with_status_def)

lemma get_loop_tries_ge: "tries \<le> fst (get_loop max_tries send tries is_success resp)"
proof (induction max_tries send tries is_success resp rule: get_loop.induct)
  case (1 max_tries send tries is_success resp)
  show ?case
  proof (cases "\<not> is_success \<and> tries < max_tries")
    case False
    then show ?thesis by (subst get_loop.simps) auto
  next
    case True
    then show ?thesis
      using "1.IH"
      by (subst get_loop.simps)
         (auto split: outcome.splits option.splits simp del: get_loop.simps)
  qed
qed

lemma priv_get_tries:
  "last_uri_call_tries (fst (priv_get B self uri kw tr))
     = fst (get_loop (max_retries self) (tr uri kw) 0 False Unbound)"
  by (simp add: priv_get_def Let_def split: prod.splits sum.splits local_var.splits)

lemma get_loop_skip:
  assumes "tries \<le> k" and "k < max_tries"
    and "\<forall>j. tries < j \<and> j \<le> k \<longrightarrow> retried (send j)"
  shows "\<exists>resp'. get_loop max_tries send tries False resp = get_loop max_tries send k False resp'"
  using assms
proof (induction "nat (k - tries)" arbitrary: tries resp)
  case 0
  then have "tries = k" by simp
  then show ?case by blast
next
  case (Suc n)
  then have lt: "tries + 1 < max_tries" and "retried (send (tries + 1))" by auto
  then obtain resp1 where
    step: "get_loop max_tries send tries False resp = get_loop max_tries send (tries + 1) False resp1"
    using get_loop_retry [of tries max_tries send resp] by auto
  have "\<exists>resp'. get_loop max_tries send (tries + 1) False resp1 = get_loop max_tries send k False resp'"
    using Suc.hyps Suc.prems by (intro Suc.hyps(1)) auto
  with step show ?case by simp
qed

text \<open>
  C3, as the code has it. The claim says that a status other than 200 and 502 on an
  attempt before the last makes the call fail at once with the HTTP error. The code raises
  nothing there and sends the request again: with two attempts allowed, a 404 followed by
  a 200 gives the 200 response after two attempts, and no \<^verbatim>\<open>HTTPError\<close>.
\<close>

theorem get_fails_at_once_counterexample:
  "snd (priv_get plain_builtins (test_client 2) ''u'' no_kwargs not_found_then_ok)
     = Inr (Some (with_status 200))
 \<and> last_uri_call_tries (fst (priv_get plain_builtins (test_client 2) ''u'' no_kwargs not_found_then_ok)) = 2
 \<and> snd (priv_get plain_builtins (test_client 2) ''u'' no_kwargs not_found_then_ok)
     \<noteq> Inl (HTTPError 404)"
  by (simp add: priv_get_def test_client_def not_found_then_ok_def with_status_def
      get_loop.simps raise_for_status_def)

text \<open>
  C3, amended. A response whose status is not 200, received on an attempt \<open>k\<close> before
  the last allowed one, raises nothing: the loop goes on and the request is sent again,
  so the call counts more than \<open>k\<close> attempts.
\<close>

theorem get_sends_again_after_other_status:
  assumes "1 \<le> k" and "k < max_retries self"
    and "tr uri kw k = Returns r" and "status_code r \<noteq> 200"
    and "\<forall>j. 1 \<le> j \<and> j < k \<longrightarrow> retried (tr uri kw j)"
  shows "k < last_uri_call_tries (fst (priv_get B self uri kw tr))"
proof -
  let ?n = "max_retries self" and ?send = "tr uri kw"
  have "\<forall>j. 0 < j \<and> j \<le> k \<longrightarrow> retried (?send j)"
  proof (intro allI impI)
    fix j assume "0 < j \<and> j \<le> k"
    then show "retried (?send j)" using assms by (cases "j = k") auto
  qed
  then obtain resp' where
    skip: "get_loop ?n ?send 0 False Unbound = get_loop ?n ?send k False resp'"
    using get_loop_skip [of 0 k ?n ?send Unbound] assms by auto
  have "k + 1 \<le> fst (get_loop ?n ?send k False resp')"
  proof (cases "?send (k + 1)")
    case (Raises_ConnectionError m)
    then show ?thesis
      using assms(2) get_loop_tries_ge [of "k + 1" ?n ?send False "Bound None"]
      by (subst get_loop.simps) auto
  next
    case (Raises_Timeout m)
    then show ?thesis
      using assms(2) get_loop_tries_ge [of "k + 1" ?n ?send False "Bound None"]
      by (subst get_loop.simps) auto
  next
    case (Raises_Other e)
    then show ?thesis using assms(2) by (subst get_loop.simps) auto
  next
    case (Returns r')
    then show ?thesis
      using assms(2) get_loop_tries_ge [of "k + 1" ?n ?send False "Bound (Some r')"]
        get_loop_tries_ge [of "k + 1" ?n ?send True "Bound (Some r')"]
      by (subst get_loop.simps) (auto split: option.splits)
  qed
  with skip show ?thesis by (simp add: priv_get_tries)
qed

theorem get_sends_again_after_other_status_witness:
  "(1::int) < last_uri_call_tries (fst (priv_get plain_builtins (test_client 2) ''u'' no_kwargs not_found_then_ok))"
  using get_sends_again_after_other_status
    [of 1 "test_client 2" not_found_then_ok "''u''" no_kwargs "with_status 404" plain_builtins]
  by (simp add: test_client_def not_found_then_ok_def with_status_def)

text \<open>
  C5, at the failing input. The last allowed attempt is answered with status 201:
  \<^verbatim>\<open>raise_for_status()\<close> raises nothing for it, and \<open>_get\<close> returns the response as
  if it were a success, where the docstring promises \<^verbatim>\<open>HTTPError\<close> for a status that
  is not OK once the retries are used up.
\<close>

theorem get_returns_201_of_last_attempt:
  "snd (priv_get plain_builtins (test_client 1) ''u'' no_kwargs always_201)
     = Inr (Some (with_status 201))"
  by (simp add: priv_get_def test_client_def always_201_def with_status_def
      get_loop.simps raise_for_status_def)

text \<open>
  C4, at the failing input. The constructor keeps \<open>max_retries = -1\<close> as given (the
  test expects the default in its place); \<open>_get\<close> then makes no attempt at all and ends
  in \<^verbatim>\<open>UnboundLocalError\<close>, which is none of the errors it documents. The same
  happens with \<open>max_retries = 0\<close>.
\<close>

theorem negative_max_retries_makes_no_attempt:
  "init (Some ''k'') True None (- 1) ''metric'' = Inr (test_client (- 1))
 \<and> max_retries (test_client (- 1)) = - 1
 \<and> snd (priv_get B (test_client (- 1)) uri kw tr) = Inl UnboundLocalError
 \<and> last_uri_call_tries (fst (priv_get B (test_client (- 1)) uri kw tr)) = 0
 \<and> init (Some ''k'') True None 0 ''metric'' = Inr (test_client 0)
 \<and> snd (priv_get B (test_client 0) uri kw tr) = Inl UnboundLocalError
 \<and> last_uri_call_tries (fst (priv_get B (test_client 0) uri kw tr)) = 0"
  by (simp add: init_def Let_def test_client_def API_HOST_def priv_get_def get_loop.simps)

section \<open>The client facade: properties\<close>

lemma masked_dict_set:
  "masked (dict_set k v d) = dict_set k (if k = ''appid'' then PNone else v) (masked d)"
  by (induction d) (auto simp: masked_def)

lemma masked_dict_update:
  "masked e = masked e' \<Longrightarrow> masked d = masked d' \<Longrightarrow> masked (dict_update d e) = masked (dict_update d' e')"
proof (induction e arbitrary: e' d d')
  case Nil
  then show ?case by (simp add: dict_update_def masked_def)
next
  case (Cons a e)
  then obtain a' e'' where e': "e' = a' # e''" by (cases e') (auto simp: masked_def)
  obtain k v where a: "a = (k, v)" by (cases a)
  obtain k' v' where a': "a' = (k', v')" by (cases a')
  from Cons.prems e' a a' have k: "k' = k" and vv: "(if k = ''appid'' then PNone else v) = (if k = ''appid'' then PNone else v')"
    and ee: "masked e = masked e''"
    by (auto simp: masked_def)
  have "masked (dict_set k v d) = masked (dict_set k v' d')"
    using Cons.prems(2) vv by (simp add: masked_dict_set)
  from Cons.IH [OF ee this] show ?case
    by (simp add: dict_update_def e' a a' k)
qed

lemma masked_keys: "map fst (masked d) = map fst d"
  by (induction d) (auto simp: masked_def)

lemma masked_dict_pop:
  assumes "masked d = masked d'"
  shows "map_option masked (dict_pop k d) = map_option masked (dict_pop k d')"
proof -
  have keys: "fst ` set d = fst ` set d'"
    using masked_keys [of d] masked_keys [of d'] assms by (metis list.set_map)
  have "masked (filter (\<lambda>kv. fst kv \<noteq> k) d) = filter (\<lambda>kv. fst kv \<noteq> k) (masked d)" for d
    by (induction d) (auto simp: masked_def)
  with assms keys show ?thesis by (simp add: dict_pop_def)
qed

lemma readable_uri_masked:
  assumes "masked d = masked d'"
  shows "readable_uri B uri \<lparr> params = Some d, stream = st \<rparr>
       = readable_uri B uri \<lparr> params = Some d', stream = st' \<rparr>"
proof -
  let ?seg = "\<lambda>(k, v). k @ ''='' @ (if k \<noteq> ''appid'' then py_str B v else ''XxX'')"
  have m: "map ?seg d = map ?seg (masked d)" for d
    by (induction d) (auto simp: masked_def)
  have "map ?seg d = map ?seg d'"
    using m [of d] m [of d'] assms by simp
  then show ?thesis
    by (simp add: readable_uri_def)
qed

lemma priv_get_last_uri_call:
  "last_uri_call (fst (priv_get B self uri kw tr)) = Some (readable_uri B uri kw)"
  by (simp add: priv_get_def Let_def split: prod.splits sum.splits local_var.splits)


lemma priv_get_data_client:
  assumes "map_of AVAILABLE_SERVICES service_name = Some info"
    and "query_params_of self params_arg with_units = Inr query_params"
  shows "fst (priv_get_data B self service_name extra_uri params_arg with_units tr) =
     fst (priv_get B self
            (case extra_uri of
               None \<Rightarrow> urljoin B (base_uri self) (service_uri info)
             | Some extra \<Rightarrow> urljoin B (urljoin B (base_uri self) (service_uri info)) extra)
            \<lparr> params = Some query_params, stream = None \<rparr> tr)"
proof -
  let ?uri = "case extra_uri of
               None \<Rightarrow> urljoin B (base_uri self) (service_uri info)
             | Some extra \<Rightarrow> urljoin B (urljoin B (base_uri self) (service_uri info)) extra"
  obtain self' res where g: "priv_get B self ?uri \<lparr> params = Some query_params, stream = None \<rparr> tr = (self', res)"
    by (cases "priv_get B self ?uri \<lparr> params = Some query_params, stream = None \<rparr> tr")
  show ?thesis
  proof (cases res)
    case (Inl exc)
    with g assms show ?thesis by (simp add: priv_get_data_def Let_def)
  next
    case (Inr r)
    show ?thesis
    proof (cases r)
      case None
      with g Inr assms show ?thesis by (simp add: priv_get_data_def Let_def)
    next
      case (Some resp)
      show ?thesis
      proof (cases "json_body resp")
        case None
        with g Inr Some assms show ?thesis by (simp add: priv_get_data_def Let_def)
      next
        case (Some resp_data)
        show ?thesis
        proof (cases "contains_error resp_data")
          case (Inl exc)
          with g Inr \<open>r = Some resp\<close> Some assms show ?thesis by (simp add: priv_get_data_def Let_def)
        next
          case (Inr b)
          with g \<open>res = Inr r\<close> \<open>r = Some resp\<close> Some assms show ?thesis
            by (cases b; cases resp_data)
               (simp_all add: priv_get_data_def Let_def split: option.splits)
        qed
      qed
    qed
  qed
qed

lemma priv_get_data_client_unchanged:
  "map_of AVAILABLE_SERVICES service_name = None
     \<or> (\<exists>exc. query_params_of self params_arg with_units = Inl exc) \<Longrightarrow>
   fst (priv_get_data B self service_name extra_uri params_arg with_units tr) = self"
  by (auto simp: priv_get_data_def Let_def split: option.splits)

lemma init_query_params_masked:
  assumes "init (Some key1) use_ssl h n u = Inr self1" and "init (Some key2) use_ssl h n u = Inr self2"
  shows "rel_sum (=) (\<lambda>q1 q2. masked q1 = masked q2)
           (query_params_of self1 ps w) (query_params_of self2 ps w)"
proof -
  let ?d = "case ps of None \<Rightarrow> [] | Some d \<Rightarrow> d"
  have b1: "base_uri_params self1 = [(''appid'', PStr key1), (''units'', PStr u)]"
    and b2: "base_uri_params self2 = [(''appid'', PStr key2), (''units'', PStr u)]"
    using assms by (auto simp: init_def Let_def)
  have m: "masked (dict_update ?d (base_uri_params self1)) = masked (dict_update ?d (base_uri_params self2))"
    unfolding b1 b2 by (rule masked_dict_update) (simp_all add: masked_def)
  show ?thesis
  proof (cases w)
    case True
    with m show ?thesis by (simp add: query_params_of_def Let_def)
  next
    case False
    from masked_dict_pop [OF m, of "''units''"] False show ?thesis
      by (cases "dict_pop ''units'' (dict_update ?d (base_uri_params self1))";
          cases "dict_pop ''units'' (dict_update ?d (base_uri_params self2))")
         (simp_all add: query_params_of_def Let_def)
  qed
qed

lemma hides:
  assumes "init (Some key1) use_ssl h n u = Inr self1" and "init (Some key2) use_ssl h n u = Inr self2"
  shows "last_uri_call (fst (priv_get_data B self1 service extra ps w tr1))
       = last_uri_call (fst (priv_get_data B self2 service extra ps w tr2))"
proof -
  have l: "last_uri_call self1 = last_uri_call self2" and bu: "base_uri self1 = base_uri self2"
    using assms by (auto simp: init_def Let_def)
  show ?thesis
  proof (cases "map_of AVAILABLE_SERVICES service")
    case None
    with l show ?thesis by (simp add: priv_get_data_client_unchanged)
  next
    case (Some info)
    note rel = init_query_params_masked [OF assms, of ps w]
    show ?thesis
    proof (cases "query_params_of self1 ps w")
      case (Inl exc)
      with rel obtain exc' where "query_params_of self2 ps w = Inl exc'"
        by (cases "query_params_of self2 ps w") auto
      with Inl l show ?thesis by (auto simp: priv_get_data_client_unchanged)
    next
      case (Inr q1)
      with rel obtain q2 where q2: "query_params_of self2 ps w = Inr q2" and "masked q1 = masked q2"
        by (cases "query_params_of self2 ps w") auto
      with Inr Some show ?thesis
        using readable_uri_masked [of q1 q2 B _ None None]
        by (cases extra) (simp_all add: priv_get_data_client priv_get_last_uri_call bu)
    qed
  qed
qed


lemma init_test_client: "init (Some ''k'') True None n ''metric'' = Inr (test_client n)"
  by (simp add: init_def Let_def test_client_def API_HOST_def)

lemma init_other_client: "init (Some ''secret'') True None n ''metric'' = Inr (other_client n)"
  by (simp add: init_def Let_def other_client_def API_HOST_def)

lemma map_of_dict_set: "map_of (dict_set k v d) k' = (if k' = k then Some v else map_of d k')"
  by (induction d) auto

text \<open>
  C9. The readable uri that \<open>_get\<close> records holds every query parameter as
  \<open>key=value\<close>, with \<open>XxX\<close> in place of the value of \<^verbatim>\<open>appid\<close>, whatever the
  call then does; and two clients built alike but for the API key record the same readable
  uri for the same call of \<open>_get_data\<close>, whatever their transports answer.
\<close>

theorem last_uri_call_masks_api_key:
  assumes "init (Some key1) use_ssl h n u = Inr self1"
    and "init (Some key2) use_ssl h n u = Inr self2"
  shows "last_uri_call (fst (priv_get_data B self1 service extra ps w tr1))
           = last_uri_call (fst (priv_get_data B self2 service extra ps w tr2))
       \<and> last_uri_call (fst (priv_get B self uri kw tr))
           = Some (join ''?'' [uri, join ''&''
               (map (\<lambda>(k, v). k @ ''='' @ (if k = ''appid'' then ''XxX'' else py_str B v))
                    (case params kw of None \<Rightarrow> [] | Some d \<Rightarrow> d))])"
proof -
  have "(\<lambda>(k, v). k @ ''='' @ (if k \<noteq> ''appid'' then py_str B v else ''XxX''))
      = (\<lambda>(k, v). k @ ''='' @ (if k = ''appid'' then ''XxX'' else py_str B v))"
    by (auto simp: fun_eq_iff)
  then have "last_uri_call (fst (priv_get B self uri kw tr))
           = Some (join ''?'' [uri, join ''&''
               (map (\<lambda>(k, v). k @ ''='' @ (if k = ''appid'' then ''XxX'' else py_str B v))
                    (case params kw of None \<Rightarrow> [] | Some d \<Rightarrow> d))])"
    by (simp add: priv_get_last_uri_call readable_uri_def)
  with hides [OF assms] show ?thesis by blast
qed

theorem last_uri_call_masks_api_key_witness:
  "last_uri_call (fst (priv_get_data plain_builtins (test_client 3) ''forecast_5d'' None
       (Some [(''q'', PStr ''Montcuq'')]) True fails_twice))
     = last_uri_call (fst (priv_get_data plain_builtins (other_client 3) ''forecast_5d'' None
       (Some [(''q'', PStr ''Montcuq'')]) True always_502))
 \<and> last_uri_call (fst (priv_get plain_builtins (test_client 3) ''https://api.openweathermap.org/data/2.5/forecast''
       \<lparr> params = Some [(''q'', PStr ''Montcuq''), (''appid'', PStr ''k''), (''units'', PStr ''metric'')],
         stream = None \<rparr> fails_twice))
     = Some ''https://api.openweathermap.org/data/2.5/forecast?q=Montcuq&appid=XxX&units=metric''"
  using last_uri_call_masks_api_key [OF init_test_client init_other_client,
      of plain_builtins 3 "''forecast_5d''" None "Some [(''q'', PStr ''Montcuq'')]" True fails_twice always_502
         "test_client 3" "''https://api.openweathermap.org/data/2.5/forecast''"
         "\<lparr> params = Some [(''q'', PStr ''Montcuq''), (''appid'', PStr ''k''), (''units'', PStr ''metric'')],
            stream = None \<rparr>" fails_twice]
  by (simp add: plain_builtins_def)

lemma priv_get_cong:
  "tr uri kw = tr' uri kw \<Longrightarrow> priv_get B self uri kw tr = priv_get B self uri kw tr'"
  by (simp add: priv_get_def)

lemma priv_get_data_cong:
  assumes "map_of AVAILABLE_SERVICES name = Some info"
    and "query_params_of self ps w = Inr q"
    and "tr (urljoin B (base_uri self) (service_uri info)) \<lparr> params = Some q, stream = None \<rparr>
       = tr' (urljoin B (base_uri self) (service_uri info)) \<lparr> params = Some q, stream = None \<rparr>"
  shows "priv_get_data B self name None ps w tr = priv_get_data B self name None ps w tr'"
proof -
  have "priv_get B self (urljoin B (base_uri self) (service_uri info)) \<lparr> params = Some q, stream = None \<rparr> tr
      = priv_get B self (urljoin B (base_uri self) (service_uri info)) \<lparr> params = Some q, stream = None \<rparr> tr'"
    by (rule priv_get_cong) (rule assms(3))
  then show ?thesis
    by (simp add: priv_get_data_def Let_def assms(1,2))
qed

lemma priv_get_raises_other:
  assumes "1 \<le> max_retries self" and "tr uri kw 1 = Raises_Other exc"
  shows "priv_get B self uri kw tr
       = (self\<lparr> last_uri_call := Some (readable_uri B uri kw), last_uri_call_tries := 1 \<rparr>, Inl exc)"
  using assms by (simp add: priv_get_def get_loop.simps)

lemma priv_get_data_raises_other:
  assumes "map_of AVAILABLE_SERVICES name = Some info"
    and "query_params_of self ps w = Inr q"
    and "1 \<le> max_retries self"
    and "tr (urljoin B (base_uri self) (service_uri info)) \<lparr> params = Some q, stream = None \<rparr> 1
       = Raises_Other exc"
  shows "snd (priv_get_data B self name None ps w tr) = Inl exc
       \<and> last_uri_call_tries (fst (priv_get_data B self name None ps w tr)) = 1"
  using priv_get_raises_other [where self = self and tr = tr and exc = exc and B = B
      and uri = "urljoin B (base_uri self) (service_uri info)"
      and kw = "\<lparr> params = Some q, stream = None \<rparr>", OF assms(3,4)]
  by (simp add: priv_get_data_def Let_def assms(1,2))

lemma circle_service:
  "map_of AVAILABLE_SERVICES ''current_weather_circle''
     = Some \<lparr> service_uri = ''/data/2.5/find'', schema_name = CurrentWeatherSearchSchema,
              schema_many = False \<rparr>"
  by (simp add: AVAILABLE_SERVICES_def API_DATA_VERSION_def)

text \<open>
  C8. For every integer \<open>cnt\<close> the circle search sends its request with \<open>cnt\<close>
  clamped into 0..50. With a valid \<open>cluster\<close> the call is never refused on account of
  \<open>cnt\<close>: it goes on to \<open>_get_data\<close>, and the request handed to the transport has the
  uri of the find service and the query parameters \<open>ps\<close> followed by \<^verbatim>\<open>appid\<close> and
  \<^verbatim>\<open>units\<close>, in which \<open>cnt\<close> is \<open>max 0 (min cnt 50)\<close>. The call depends on the
  transport only through its answers to that request, so it is the same against a
  transport that refuses every request carrying another \<open>cnt\<close>; and with one attempt
  or more allowed the request is really made: an exception the transport raises for it is
  the exception of the call, after one attempt. A \<open>cnt\<close> already in 0..50 is sent
  unchanged. The witness has \<open>cnt = -5\<close> sent as 0 and \<open>cnt = 1000\<close> sent as 50.
\<close>

theorem within_circle_clamps_cnt:
  assumes "init key use_ssl h n u = Inr self"
    and "cluster \<in> {None, Some ''yes'', Some ''no''}"
    and "ps = [(''lat'', lat), (''lon'', lon), (''cnt'', PInt (max 0 (min cnt 50)))]
              @ (case cluster of None \<Rightarrow> [] | Some c \<Rightarrow> [(''cluster'', PStr c)])
              @ (case lang of None \<Rightarrow> [] | Some l \<Rightarrow> [(''lang'', PStr l)])"
    and "uri = urljoin B (base_uri self) ''/data/2.5/find''"
    and "kw = \<lparr> params = Some (ps @ base_uri_params self), stream = None \<rparr>"
  shows "get_current_weather_within_circle B self lat lon cluster cnt lang tr
           = priv_get_data B self ''current_weather_circle'' None (Some ps) True tr
       \<and> (\<exists>q. query_params_of self (Some ps) True = Inr q
              \<and> map_of q ''cnt'' = Some (PInt (max 0 (min cnt 50))))
       \<and> 0 \<le> max 0 (min cnt 50) \<and> max 0 (min cnt 50) \<le> 50
       \<and> (0 \<le> cnt \<and> cnt \<le> 50 \<longrightarrow> max 0 (min cnt 50) = cnt)
       \<and> (\<exists>q. params kw = Some q \<and> map_of q ''cnt'' = Some (PInt (max 0 (min cnt 50))))
       \<and> (\<forall>tr'. tr' uri kw = tr uri kw \<longrightarrow>
             get_current_weather_within_circle B self lat lon cluster cnt lang tr'
               = get_current_weather_within_circle B self lat lon cluster cnt lang tr)
       \<and> get_current_weather_within_circle B self lat lon cluster cnt lang
             (only_with_cnt (max 0 (min cnt 50)) tr)
           = get_current_weather_within_circle B self lat lon cluster cnt lang tr
       \<and> (1 \<le> max_retries self \<and> tr uri kw 1 = Raises_Other exc \<longrightarrow>
             snd (get_current_weather_within_circle B self lat lon cluster cnt lang tr) = Inl exc
           \<and> last_uri_call_tries
                (fst (get_current_weather_within_circle B self lat lon cluster cnt lang tr)) = 1)"
proof -
  let ?c = "max 0 (min cnt 50)"
  let ?info = "\<lparr> service_uri = ''/data/2.5/find'', schema_name = CurrentWeatherSearchSchema,
              schema_many = False \<rparr>"
  have call: "get_current_weather_within_circle B self lat lon cluster cnt lang t
           = priv_get_data B self ''current_weather_circle'' None (Some ps) True t" for t
    using assms(2,3)
    by (cases lang)
       (auto simp: get_current_weather_within_circle_def Let_def dict_update_def)
  obtain k where bp: "base_uri_params self = [(''appid'', PStr k), (''units'', PStr u)]"
    using assms(1) by (auto simp: init_def Let_def split: option.splits)
  have q: "query_params_of self (Some ps) True = Inr (ps @ base_uri_params self)"
    using assms(2,3)
    by (cases lang) (auto simp: query_params_of_def Let_def dict_update_def bp)
  have cnt: "map_of (ps @ base_uri_params self) ''cnt'' = Some (PInt ?c)"
    using assms(3) by simp
  have uri: "uri = urljoin B (base_uri self) (service_uri ?info)"
    using assms(4) by simp
  have cong: "priv_get_data B self ''current_weather_circle'' None (Some ps) True t'
            = priv_get_data B self ''current_weather_circle'' None (Some ps) True t"
    if "t' uri kw = t uri kw" for t t'
    using that unfolding uri assms(5) by (intro priv_get_data_cong [OF circle_service q])
  have guard: "only_with_cnt ?c tr uri kw = tr uri kw"
    using cnt by (auto simp: only_with_cnt_def assms(5) fun_eq_iff)
  have raises: "snd (priv_get_data B self ''current_weather_circle'' None (Some ps) True tr) = Inl exc
       \<and> last_uri_call_tries (fst (priv_get_data B self ''current_weather_circle'' None (Some ps) True tr)) = 1"
    if "1 \<le> max_retries self" "tr uri kw 1 = Raises_Other exc"
    using that unfolding uri assms(5) by (intro priv_get_data_raises_other [OF circle_service q])
  have old: "\<exists>q. query_params_of self (Some ps) True = Inr q \<and> map_of q ''cnt'' = Some (PInt ?c)"
    using q cnt by simp
  have kwq: "\<exists>q. params kw = Some q \<and> map_of q ''cnt'' = Some (PInt ?c)"
    using cnt by (simp add: assms(5))
  have bounds: "0 \<le> ?c \<and> ?c \<le> 50 \<and> (0 \<le> cnt \<and> cnt \<le> 50 \<longrightarrow> ?c = cnt)"
    by auto
  have c1: "\<forall>tr'. tr' uri kw = tr uri kw \<longrightarrow>
             get_current_weather_within_circle B self lat lon cluster cnt lang tr'
               = get_current_weather_within_circle B self lat lon cluster cnt lang tr"
    unfolding call using cong by blast
  have c2: "get_current_weather_within_circle B self lat lon cluster cnt lang (only_with_cnt ?c tr)
           = get_current_weather_within_circle B self lat lon cluster cnt lang tr"
    unfolding call by (rule cong) (rule guard)
  have c3: "1 \<le> max_retries self \<and> tr uri kw 1 = Raises_Other exc \<longrightarrow>
             snd (get_current_weather_within_circle B self lat lon cluster cnt lang tr) = Inl exc
           \<and> last_uri_call_tries
                (fst (get_current_weather_within_circle B self lat lon cluster cnt lang tr)) = 1"
    unfolding call using raises by blast
  from call [of tr] old bounds kwq c1 c2 c3 show ?thesis
    by (intro conjI) blast+
qed

theorem within_circle_clamps_cnt_witness:
  "get_current_weather_within_circle plain_builtins (test_client 3) (PFloat 44) (PFloat 1) None (- 5) None always_502
     = priv_get_data plain_builtins (test_client 3) ''current_weather_circle'' None
         (Some [(''lat'', PFloat 44), (''lon'', PFloat 1), (''cnt'', PInt 0)]) True always_502
 \<and> get_current_weather_within_circle plain_builtins (test_client 3) (PFloat 44) (PFloat 1) (Some ''yes'') 1000 None always_502
     = priv_get_data plain_builtins (test_client 3) ''current_weather_circle'' None
         (Some [(''lat'', PFloat 44), (''lon'', PFloat 1), (''cnt'', PInt 50), (''cluster'', PStr ''yes'')]) True always_502
 \<and> query_params_of (test_client 3) (Some [(''lat'', PFloat 44), (''lon'', PFloat 1), (''cnt'', PInt 0)]) True
     = Inr [(''lat'', PFloat 44), (''lon'', PFloat 1), (''cnt'', PInt 0), (''appid'', PStr ''k''), (''units'', PStr ''metric'')]
 \<and> snd (get_current_weather_within_circle plain_builtins (test_client 3) (PFloat 44) (PFloat 1) None (- 5) None (refuses_cnt 0))
     = Inl (RequestException ''refused'')
 \<and> last_uri_call_tries (fst (get_current_weather_within_circle plain_builtins (test_client 3) (PFloat 44) (PFloat 1) None (- 5) None (refuses_cnt 0)))
     = 1
 \<and> snd (get_current_weather_within_circle plain_builtins (test_client 3) (PFloat 44) (PFloat 1) (Some ''yes'') 1000 None (refuses_cnt 50))
     = Inl (RequestException ''refused'')"
proof -
  have none: "None \<in> {None, Some ''yes'', Some ''no''}"
    and yes: "Some ''yes'' \<in> {None, Some ''yes'', Some ''no''}"
    by simp_all
  note low = within_circle_clamps_cnt [OF init_test_client none refl refl refl, where cnt = "- 5"
      and lat = "PFloat 44" and lon = "PFloat 1" and lang = None and B = plain_builtins and n = 3]
  note high = within_circle_clamps_cnt [OF init_test_client yes refl refl refl, where cnt = 1000 and lat = "PFloat 44" and lon = "PFloat 1" and lang = None and B = plain_builtins and n = 3]
  have a: "get_current_weather_within_circle plain_builtins (test_client 3) (PFloat 44) (PFloat 1) None (- 5) None always_502
     = priv_get_data plain_builtins (test_client 3) ''current_weather_circle'' None
         (Some [(''lat'', PFloat 44), (''lon'', PFloat 1), (''cnt'', PInt 0)]) True always_502"
    using low [where tr = always_502] by simp
  have b: "get_current_weather_within_circle plain_builtins (test_client 3) (PFloat 44) (PFloat 1) (Some ''yes'') 1000 None always_502
     = priv_get_data plain_builtins (test_client 3) ''current_weather_circle'' None
         (Some [(''lat'', PFloat 44), (''lon'', PFloat 1), (''cnt'', PInt 50), (''cluster'', PStr ''yes'')]) True always_502"
    using high [where tr = always_502] by simp
  have c: "query_params_of (test_client 3) (Some [(''lat'', PFloat 44), (''lon'', PFloat 1), (''cnt'', PInt 0)]) True
     = Inr [(''lat'', PFloat 44), (''lon'', PFloat 1), (''cnt'', PInt 0), (''appid'', PStr ''k''), (''units'', PStr ''metric'')]"
    by (simp add: query_params_of_def Let_def test_client_def dict_update_def)
  have d: "snd (get_current_weather_within_circle plain_builtins (test_client 3) (PFloat 44) (PFloat 1) None (- 5) None (refuses_cnt 0))
         = Inl (RequestException ''refused'')
     \<and> last_uri_call_tries (fst (get_current_weather_within_circle plain_builtins (test_client 3) (PFloat 44) (PFloat 1) None (- 5) None (refuses_cnt 0)))
         = 1"
    by (rule low [where tr = "refuses_cnt 0" and exc = "RequestException ''refused''",
          THEN conjunct2, THEN conjunct2, THEN conjunct2, THEN conjunct2, THEN conjunct2, THEN conjunct2, THEN conjunct2, THEN conjunct2, THEN mp])
       (simp add: test_client_def refuses_cnt_def)
  have e: "snd (get_current_weather_within_circle plain_builtins (test_client 3) (PFloat 44) (PFloat 1) (Some ''yes'') 1000 None (refuses_cnt 50))
         = Inl (RequestException ''refused'')"
    by (rule high [where tr = "refuses_cnt 50" and exc = "RequestException ''refused''",
          THEN conjunct2, THEN conjunct2, THEN conjunct2, THEN conjunct2, THEN conjunct2, THEN conjunct2, THEN conjunct2, THEN conjunct2, THEN mp, THEN conjunct1])
       (simp add: test_client_def refuses_cnt_def)
  from a b c d e show ?thesis by simp
qed

text \<open>
  C10. The bounding-box search appends the zoom to the list object it was given: for every
  box of four elements the caller's list has five after the call, whether the call then
  succeeds or fails.
\<close>

theorem within_box_extends_callers_list:
  assumes "length box = 4"
  shows "fst (get_current_weather_within_box B self box zoom cluster lang tr) = box @ [zoom]
       \<and> length (fst (get_current_weather_within_box B self box zoom cluster lang tr)) = 5"
  using assms by (simp add: get_current_weather_within_box_def Let_def)

theorem within_box_extends_callers_list_witness:
  "fst (get_current_weather_within_box plain_builtins (test_client 3)
          [PInt 12, PInt 32, PInt 15, PInt 37] (PInt 10) None None always_502)
     = [PInt 12, PInt 32, PInt 15, PInt 37, PInt 10]"
  using within_box_extends_callers_list
    [of "[PInt 12, PInt 32, PInt 15, PInt 37]" plain_builtins "test_client 3" "PInt 10" None None always_502]
  by simp

section \<open>Timestamps: properties\<close>

lemma div_decomp: "0 \<le> r \<Longrightarrow> r < k \<Longrightarrow> (k * q + r) div k = (q::int)"
  by simp

lemma mod_decomp: "(k * q + r) mod k = (r::int) mod k"
  by simp

lemma mod_zero_iff_top: "0 < x \<Longrightarrow> x \<le> k \<Longrightarrow> (x mod k = 0) = (x = (k::int))"
  by (metis mod_pos_pos_trivial mod_self less_le not_less)

lemma days_before_year_decomp:
  assumes "0 \<le> b" "b \<le> 3" "0 \<le> c" "c \<le> 24" "0 \<le> e" "e \<le> 3"
  shows "days_before_year (400 * a + 100 * b + 4 * c + e + 1)
       = 146097 * a + 36524 * b + 1461 * c + 365 * e"
proof -
  let ?y = "400 * a + 100 * b + 4 * c + e"
  have "?y = 4 * (100 * a + 25 * b + c) + e" by simp
  then have d4: "?y div 4 = 100 * a + 25 * b + c"
    using div_decomp [of e 4 "100 * a + 25 * b + c"] assms by simp
  have "?y = 100 * (4 * a + b) + (4 * c + e)" by simp
  then have d100: "?y div 100 = 4 * a + b"
    using div_decomp [of "4 * c + e" 100 "4 * a + b"] assms by simp
  have "?y = 400 * a + (100 * b + 4 * c + e)" by simp
  then have d400: "?y div 400 = a"
    using div_decomp [of "100 * b + 4 * c + e" 400 a] assms by simp
  show ?thesis
    by (simp add: days_before_year_def Let_def d4 d100 d400)
qed


lemma is_leap_decomp:
  assumes "0 \<le> b" "b \<le> 3" "0 \<le> c" "c \<le> 24" "0 \<le> e" "e \<le> 3"
  shows "is_leap (400 * a + 100 * b + 4 * c + e + 1) = (e = 3 \<and> (c \<noteq> 24 \<or> b = 3))"
proof -
  let ?y = "400 * a + 100 * b + 4 * c + e + 1"
  have e4: "?y = 4 * (100 * a + 25 * b + c) + (e + 1)" by simp
  have m4: "?y mod 4 = (e + 1) mod 4"
    by (subst e4) (rule mod_decomp)
  have e100: "?y = 100 * (4 * a + b) + (4 * c + e + 1)" by simp
  have m100: "?y mod 100 = (4 * c + e + 1) mod 100"
    by (subst e100) (rule mod_decomp)
  have e400: "?y = 400 * a + (100 * b + 4 * c + e + 1)" by simp
  have m400: "?y mod 400 = (100 * b + 4 * c + e + 1) mod 400"
    by (subst e400) (rule mod_decomp)
  have a4: "((e + 1) mod 4 = 0) = (e = 3)"
    using mod_zero_iff_top [of "e + 1" 4] assms by auto
  have a100: "((4 * c + e + 1) mod 100 = 0) = (4 * c + e + 1 = 100)"
    using mod_zero_iff_top [of "4 * c + e + 1" 100] assms by auto
  have a400: "((100 * b + 4 * c + e + 1) mod 400 = 0) = (100 * b + 4 * c + e + 1 = 400)"
    using mod_zero_iff_top [of "100 * b + 4 * c + e + 1" 400] assms by auto
  show ?thesis
    unfolding is_leap_def m4 m100 m400 a4 a100 a400 using assms by auto
qed

lemma month_of_day:
  assumes "0 \<le> n" and "n \<le> 364"
    and "m = (n + 50) div 32"
    and "p = DAYS_BEFORE_MONTH ! nat m + (if m > 2 \<and> leap then 1 else 0)"
  shows "(if p > n
          then DAYS_BEFORE_MONTH ! nat (m - 1) + (if m - 1 > 2 \<and> leap then 1 else 0)
               + (n - (p - (DAYS_IN_MONTH ! nat (m - 1) + (if m - 1 = 2 \<and> leap then 1 else 0))) + 1)
          else DAYS_BEFORE_MONTH ! nat m + (if m > 2 \<and> leap then 1 else 0) + (n - p + 1))
         = n + 1"
proof -
  have "1 \<le> m" and "m \<le> 12" using assms by auto
  then consider "m = 1" | "m = 2" | "m = 3" | "m = 4" | "m = 5" | "m = 6"
    | "m = 7" | "m = 8" | "m = 9" | "m = 10" | "m = 11" | "m = 12"
    by atomize_elim arith
  then show ?thesis
  proof cases
    case 1
    with assms show ?thesis by (simp add: DAYS_BEFORE_MONTH_def)
  qed (use assms in \<open>simp_all add: DAYS_BEFORE_MONTH_def DAYS_IN_MONTH_def\<close>)
qed


lemma ord2ymd_unfolded:
  fixes D :: int
  defines "a \<equiv> (D - 1) div 146097"
  defines "r1 \<equiv> (D - 1) mod 146097"
  defines "b \<equiv> r1 div 36524"
  defines "r2 \<equiv> r1 mod 36524"
  defines "c \<equiv> r2 div 1461"
  defines "r3 \<equiv> r2 mod 1461"
  defines "e \<equiv> r3 div 365"
  defines "n \<equiv> r3 mod 365"
  shows "ord2ymd D =
     (if e = 4 \<or> b = 4 then (a * 400 + 1 + (b * 100 + c * 4 + e) - 1, 12, 31)
      else
        (let leapyear = (e = 3 \<and> (c \<noteq> 24 \<or> b = 3));
             m = (n + 50) div 32;
             preceding = DAYS_BEFORE_MONTH ! nat m + (if m > 2 \<and> leapyear then 1 else 0)
         in if preceding > n
            then (let m' = m - 1;
                      preceding' = preceding
                        - (DAYS_IN_MONTH ! nat m' + (if m' = 2 \<and> leapyear then 1 else 0))
                  in (a * 400 + 1 + (b * 100 + c * 4 + e), m', n - preceding' + 1))
            else (a * 400 + 1 + (b * 100 + c * 4 + e), m, n - preceding + 1)))"
  unfolding ord2ymd_def DI400Y_def DI100Y_def DI4Y_def assms
  by (simp only: Let_def)

lemma ord2ymd_cases [case_names end400 end4 regular]:
  obtains
    a where "D = 146097 * a + 146097" and "ord2ymd D = (400 * a + 400, 12, 31)"
  | a b c where "D = 146097 * a + 36524 * b + 1461 * c + 1461"
      and "0 \<le> b" "b \<le> 3" "0 \<le> c" "c \<le> 23"
      and "ord2ymd D = (400 * a + 100 * b + 4 * c + 4, 12, 31)"
  | a b c e n where "D = 146097 * a + 36524 * b + 1461 * c + 365 * e + n + 1"
      and "0 \<le> b" "b \<le> 3" "0 \<le> c" "c \<le> 24" "0 \<le> e" "e \<le> 3" "0 \<le> n" "n \<le> 364"
      and "ord2ymd D =
        (let leapyear = (e = 3 \<and> (c \<noteq> 24 \<or> b = 3));
             m = (n + 50) div 32;
             preceding = DAYS_BEFORE_MONTH ! nat m + (if m > 2 \<and> leapyear then 1 else 0)
         in if preceding > n
            then (let m' = m - 1;
                      preceding' = preceding
                        - (DAYS_IN_MONTH ! nat m' + (if m' = 2 \<and> leapyear then 1 else 0))
                  in (a * 400 + 1 + (b * 100 + c * 4 + e), m', n - preceding' + 1))
            else (a * 400 + 1 + (b * 100 + c * 4 + e), m, n - preceding + 1))"
proof -
  define a where "a = (D - 1) div 146097"
  define r1 where "r1 = (D - 1) mod 146097"
  define b where "b = r1 div 36524"
  define r2 where "r2 = r1 mod 36524"
  define c where "c = r2 div 1461"
  define r3 where "r3 = r2 mod 1461"
  define e where "e = r3 div 365"
  define n where "n = r3 mod 365"
  have D: "D - 1 = 146097 * a + r1" and r1: "0 \<le> r1" "r1 < 146097"
    by (simp_all add: a_def r1_def)
  have R1: "r1 = 36524 * b + r2" and r2: "0 \<le> r2" "r2 < 36524"
    by (simp_all add: b_def r2_def)
  have R2: "r2 = 1461 * c + r3" and r3: "0 \<le> r3" "r3 < 1461"
    by (simp_all add: c_def r3_def)
  have R3: "r3 = 365 * e + n" and n: "0 \<le> n" "n < 365"
    by (simp_all add: e_def n_def)
  have b: "0 \<le> b" "b \<le> 4" using R1 r1 r2 by auto
  have c: "0 \<le> c" "c \<le> 24" using R2 r2 r3 by auto
  have e: "0 \<le> e" "e \<le> 4" using R3 r3 n by auto
  note unfolded = ord2ymd_unfolded [of D, folded a_def r1_def, folded b_def r2_def,
      folded c_def r3_def, folded e_def n_def]
  show thesis
  proof (cases "b = 4")
    case True
    with R1 r1 r2 have z: "r2 = 0" "r1 = 146096" by auto
    with R2 R3 r3 n c e have "c = 0" "e = 0" by auto
    with True have "ord2ymd D = (400 * a + 400, 12, 31)"
      by (simp add: unfolded)
    moreover have "D = 146097 * a + 146097" using D z by simp
    ultimately show thesis by (rule that(1) [rotated])
  next
    case False
    with b have b3: "b \<le> 3" by simp
    show thesis
    proof (cases "e = 4")
      case True
      with R3 r3 n have z: "n = 0" "r3 = 1460" by auto
      with R2 r2 c have c23: "c \<le> 23" by auto
      from True have "ord2ymd D = (400 * a + 100 * b + 4 * c + 4, 12, 31)"
        by (simp add: unfolded)
      moreover have "D = 146097 * a + 36524 * b + 1461 * c + 1461"
        using D R1 R2 z by simp
      ultimately show thesis using b b3 c c23 by (intro that(2) [of a b c])
    next
      case e4: False
      with e have e3: "e \<le> 3" by simp
      have "\<not> (e = 4 \<or> b = 4)" using False e4 by simp
      then have eq: "ord2ymd D =
        (let leapyear = (e = 3 \<and> (c \<noteq> 24 \<or> b = 3));
             m = (n + 50) div 32;
             preceding = DAYS_BEFORE_MONTH ! nat m + (if m > 2 \<and> leapyear then 1 else 0)
         in if preceding > n
            then (let m' = m - 1;
                      preceding' = preceding
                        - (DAYS_IN_MONTH ! nat m' + (if m' = 2 \<and> leapyear then 1 else 0))
                  in (a * 400 + 1 + (b * 100 + c * 4 + e), m', n - preceding' + 1))
            else (a * 400 + 1 + (b * 100 + c * 4 + e), m, n - preceding + 1))"
        by (simp only: unfolded if_False)
      have "D = 146097 * a + 36524 * b + 1461 * c + 365 * e + n + 1"
        using D R1 R2 R3 by simp
      then show thesis using b b3 c e e3 n eq
        by (intro that(3) [of a b c e n]) simp_all
    qed
  qed
qed


lemma ymd2ord_ord2ymd:
  assumes "ord2ymd D = (y, m, d)"
  shows "ymd2ord y m d = D"
proof (cases D rule: ord2ymd_cases)
  case (end400 a)
  with assms have y: "y = 400 * a + 100 * 3 + 4 * 24 + 3 + 1" and "m = 12" "d = 31" by auto
  have "days_before_year y = 146097 * a + 36524 * 3 + 1461 * 24 + 365 * 3"
    unfolding y by (rule days_before_year_decomp) auto
  moreover have "is_leap y"
    unfolding y by (subst is_leap_decomp) auto
  ultimately show ?thesis
    using end400 \<open>m = 12\<close> \<open>d = 31\<close>
    by (simp add: ymd2ord_def days_before_month_def DAYS_BEFORE_MONTH_def)
next
  case (end4 a b c)
  with assms have y: "y = 400 * a + 100 * b + 4 * c + 3 + 1" and "m = 12" "d = 31" by auto
  have "days_before_year y = 146097 * a + 36524 * b + 1461 * c + 365 * 3"
    unfolding y using end4 by (intro days_before_year_decomp) auto
  moreover have "is_leap y"
    unfolding y using end4 by (subst is_leap_decomp) auto
  ultimately show ?thesis
    using end4 \<open>m = 12\<close> \<open>d = 31\<close>
    by (simp add: ymd2ord_def days_before_month_def DAYS_BEFORE_MONTH_def)
next
  case (regular a b c e n)
  define leap where "leap = (e = 3 \<and> (c \<noteq> 24 \<or> b = 3))"
  define m0 where "m0 = (n + 50) div 32"
  define p where "p = DAYS_BEFORE_MONTH ! nat m0 + (if m0 > 2 \<and> leap then 1 else 0)"
  have yy: "a * 400 + 1 + (b * 100 + c * 4 + e) = 400 * a + 100 * b + 4 * c + e + 1" by simp
  from regular(10) assms have
    y: "y = 400 * a + 100 * b + 4 * c + e + 1"
    and md: "(m, d) = (if p > n
               then (m0 - 1, n - (p - (DAYS_IN_MONTH ! nat (m0 - 1) + (if m0 - 1 = 2 \<and> leap then 1 else 0))) + 1)
               else (m0, n - p + 1))"
    by (auto simp: Let_def leap_def m0_def p_def split: if_splits)
  have dby: "days_before_year y = 146097 * a + 36524 * b + 1461 * c + 365 * e"
    unfolding y using regular by (intro days_before_year_decomp) auto
  have lp: "is_leap y = leap"
    unfolding y leap_def using regular by (intro is_leap_decomp) auto
  have "days_before_month y m + d = n + 1"
    using month_of_day [OF regular(8,9) m0_def p_def] md
    by (auto simp: days_before_month_def lp split: if_splits)
  with dby regular(1) show ?thesis
    by (simp add: ymd2ord_def)
qed

lemma ord2ymd_year_range:
  assumes "1 \<le> D" and "D \<le> 3652059" and "ord2ymd D = (y, m, d)"
  shows "1 \<le> y \<and> y \<le> 9999"
proof (cases D rule: ord2ymd_cases)
  case (end400 a)
  with assms show ?thesis by auto
next
  case (end4 a b c)
  with assms have "y = 400 * a + 100 * b + 4 * c + 4" by simp
  moreover have "0 \<le> a" "a \<le> 24" using end4 assms by auto
  ultimately show ?thesis using end4 assms by auto
next
  case (regular a b c e n)
  from regular(10) assms have y: "y = 400 * a + 100 * b + 4 * c + e + 1"
    by (auto simp: Let_def split: if_splits)
  have a: "0 \<le> a" "a \<le> 24" using regular assms by auto
  show ?thesis
  proof (cases "a = 24")
    case False
    with a y regular show ?thesis by auto
  next
    case True
    show ?thesis
    proof (cases "b = 3")
      case False
      with a y regular show ?thesis by auto
    next
      case b3: True
      show ?thesis
      proof (cases "c = 24")
        case False
        with a y regular show ?thesis by auto
      next
        case c24: True
        with True b3 regular assms have "e \<le> 2" by auto
        with a y regular show ?thesis by auto
      qed
    qed
  qed
qed

lemma seconds_of_day:
  "ss mod 60 + ss mod 3600 div 60 * 60 + ss div 3600 * 3600 = (ss::int)"
proof -
  have "ss mod 3600 = ss mod 3600 div 60 * 60 + ss mod 3600 mod 60" by simp
  moreover have "ss mod 3600 mod 60 = ss mod 60"
    by (simp add: mod_mod_cancel)
  moreover have "ss = ss div 3600 * 3600 + ss mod 3600" by simp
  ultimately show ?thesis by linarith
qed

lemma utc_roundtrip:
  assumes "- 62135596800 \<le> T" and "T \<le> 253402300799"
  shows "\<exists>d. utc_fromtimestamp T = Inr d \<and> tzinfo d = Some timezone_utc \<and> timestamp B d = T"
proof -
  define D where "D = 719163 + T div 86400"
  define ss where "ss = T mod 86400"
  obtain y m dd where o: "ord2ymd D = (y, m, dd)" by (cases "ord2ymd D") auto
  have "- 719162 \<le> T div 86400" "T div 86400 \<le> 2932896" using assms by auto
  then have "1 \<le> D" "D \<le> 3652059" by (simp_all add: D_def)
  from ord2ymd_year_range [OF this o] have yr: "1 \<le> y \<and> y \<le> 9999" .
  from ymd2ord_ord2ymd [OF o] have ord: "ymd2ord y m dd = D" .
  define d where "d = \<lparr> year = y, month = m, day = dd, hour = ss div 3600,
      minute = ss mod 3600 div 60, second = ss mod 60, tzinfo = Some timezone_utc \<rparr>"
  have conv: "utc_fromtimestamp T = Inr d"
    unfolding utc_fromtimestamp_def D_def [symmetric] ss_def [symmetric] o
    using yr by (simp add: d_def)
  have T: "T = (D - 719163) * 86400 + ss"
    by (simp add: D_def ss_def)
  have "timestamp B d = (D - 719163) * 86400 + ss"
    using seconds_of_day [of ss] ord
    by (simp add: timestamp_def toordinal_def d_def)
  with T conv show ?thesis by (auto simp: d_def)
qed

section \<open>Loading with a schema: properties\<close>

lemma unmarshal_Cons:
  "unmarshal B (Field a t lf rq an # fs) data =
     (case field_conv B t rq an (snd (get_value data a lf)) of
        Some (Raised exc) \<Rightarrow> Inl exc
      | c \<Rightarrow>
          (case unmarshal B fs data of
             Inl exc \<Rightarrow> Inl exc
           | Inr rest \<Rightarrow> Inr (store a (fst (get_value data a lf)) c rest)))"
  by (cases "get_value data a lf")
     (simp add: field_conv_def Let_def split: option.splits conv.splits sum.splits)

lemma unmarshal_Cons_Inr:
  assumes "unmarshal B (Field a t lf rq an # fs) data = Inr res"
  obtains rest where "unmarshal B fs data = Inr rest"
    and "res = store a (fst (get_value data a lf)) (field_conv B t rq an (snd (get_value data a lf))) rest"
  using assms unfolding unmarshal_Cons
  by (auto split: option.splits conv.splits sum.splits)

lemma unmarshal_field:
  assumes "unmarshal B fs data = Inr (r, errs)"
    and "Field a t lf rq an \<in> set fs"
    and "distinct (map declared_name fs)"
    and "snd (get_value data a lf) = Some v" and "v \<noteq> PNone"
    and "deserialize B t v = Ok w"
  shows "map_of r a = Some w"
  using assms(1-3)
proof (induction fs arbitrary: r errs)
  case Nil
  then show ?case by simp
next
  case (Cons f fs)
  obtain a' t' lf' rq' an' where f: "f = Field a' t' lf' rq' an'" by (cases f)
  from Cons.prems(1) [unfolded f] obtain rest where
    rest: "unmarshal B fs data = Inr rest"
    and r: "(r, errs) = store a' (fst (get_value data a' lf')) (field_conv B t' rq' an' (snd (get_value data a' lf'))) rest"
    by (rule unmarshal_Cons_Inr)
  obtain r' e' where re: "rest = (r', e')" by (cases rest)
  show ?case
  proof (cases "f = Field a t lf rq an")
    case True
    with f assms(4-6) have "field_conv B t' rq' an' (snd (get_value data a' lf')) = Some (Ok w)"
      by (simp add: field_conv_def)
    with r True f show ?thesis by (simp add: store_def)
  next
    case False
    with Cons.prems(2) have mem: "Field a t lf rq an \<in> set fs" by simp
    with Cons.prems(3) f have ne: "a' \<noteq> a" by force
    from rest re mem Cons.prems(3) Cons.IH have "map_of r' a = Some w" by simp
    with r re ne show ?thesis
      by (auto simp: store_def split: option.splits conv.splits if_splits)
  qed
qed

text \<open>
  C6, at the failing input. The city list holds a city whose \<open>id\<close> is null. The schema
  is not strict, so \<^verbatim>\<open>load\<close> reports the violation in the second component of its
  result and raises nothing; \<open>_deserialize_with_schema\<close> takes the first component and
  returns the record without the field, and its \<^verbatim>\<open>except ma.ValidationError\<close> clause is
  never entered. The same happens to a missing field of a schema that requires it.
\<close>

theorem deserialize_returns_record_despite_errors:
  "map_of AVAILABLE_SERVICES ''city_list'' = Some city_list_info
 \<and> load B CitySchema True False cities_with_null_id
     = Inr (PList [PDict [(''name'', PStr ''Montcuq'')]],
            [([Index 0, Key ''id''], ''Field may not be null.'')])
 \<and> priv_deserialize_with_schema B city_list_info cities_with_null_id
     = Inr (PList [PDict [(''name'', PStr ''Montcuq'')]])
 \<and> load B [Field ''id'' Integer None True False] False False (PDict [])
     = Inr (PDict [], [([Key ''id''], ''Missing data for required field.'')])
 \<and> priv_deserialize_with_schema B
       \<lparr> service_uri = [], schema_name = [Field ''id'' Integer None True False], schema_many = False \<rparr>
       (PDict [])
     = Inr (PDict [])"
  by (simp add: AVAILABLE_SERVICES_def city_list_info_def cities_with_null_id_def
      priv_deserialize_with_schema_def load_def unmarshal_item_def CitySchema_def
      get_value_def Let_def store_def fail_def under_def)

text \<open>
  C7, as the code has it. The claim says that the converter turns every integer timestamp
  into an instant. \<^verbatim>\<open>datetime\<close> has no year after 9999: for the first second of the
  year 10000 the converter raises.
\<close>

theorem timestamp_out_of_range_counterexample:
  "dt_from_timestamp plain_builtins (PInt 253402300800) (Some timezone_utc)
     = Inl (ValueError ''year is out of range'')"
  by (simp add: dt_from_timestamp_def fromtimestamp_def utc_fromtimestamp_def ord2ymd_def
      DI400Y_def DI100Y_def DI4Y_def Let_def)

text \<open>
  The converter is used by four fields, those of \<open>timestamp_fields\<close>: \<open>dt_value\<close> of
  \<open>ForecastDataSchema\<close>, \<open>sunrise\<close> and \<open>sunset\<close> of
  \<open>CurrentWeatherSysDataSchema\<close>, \<open>dt_value\<close> of \<open>CurrentWeatherSchema\<close>.
\<close>

lemma from_ts_names_of_all_schemas:
  "map from_ts_names all_schemas =
     [[], [], [], [], [], [], [], [], [''dt_value''], [], [''sunrise'', ''sunset''],
      [''dt_value''], [], [], [], [], [], [], [], [], [], [], [], []]"
  by (simp add: all_schemas_def CityCoordSchema_def CitySchema_def MainDataSchema_def
      WindDataSchema_def WeatherDataSchema_def CloudDataSchema_def RainDataSchema_def
      SnowDataSchema_def ForecastDataSchema_def ForecastSchema_def
      CurrentWeatherSysDataSchema_def CurrentWeatherSchema_def CurrentWeatherSearchSchema_def
      UVIndexSchema_def AirPollutionLocationSchema_def AirPollutionBaseSchema_def
      AirPollutionCarbonMonoxydeDataSchema_def AirPollutionCarbonMonoxydeSchema_def
      AirPollutionOzoneSchema_def AirPollutionSulfurDioxideDataSchema_def
      AirPollutionSulfurDioxideSchema_def AirPollutionNitrogenDioxideItemDataSchema_def
      AirPollutionNitrogenDioxideItemSchema_def AirPollutionNitrogenDioxideSchema_def)

lemma deserialize_from_ts:
  "dt_from_timestamp B (PInt T) (Some timezone_utc) = Inr d \<Longrightarrow>
   deserialize B Method_from_ts (PInt T) = Ok (PDatetime d)"
  by (simp add: Method_deserialize_def from_ts_def)

lemma siblings:
  assumes "(fs, value_field, raw_field, src) \<in> set timestamp_fields"
    and "dt_from_timestamp B (PInt T) (Some timezone_utc) = Inr d"
    and "map_of data src = Some (PInt T)"
    and "map_of data raw_field = None"
    and "value_field \<noteq> src \<longrightarrow> map_of data value_field = None"
    and "unmarshal B fs data = Inr (r, errs)"
  shows "map_of r value_field = Some (PDatetime d) \<and> map_of r raw_field = Some (PInt T)"
proof -
  have "\<exists>lf lf'. Field value_field Method_from_ts lf False False \<in> set fs
          \<and> Field raw_field Integer lf' False False \<in> set fs
          \<and> distinct (map declared_name fs)
          \<and> (lf = Some src \<or> (lf = None \<and> value_field = src)) \<and> lf' = Some src"
    using assms(1)
    by (auto simp: timestamp_fields_def ForecastDataSchema_def CurrentWeatherSysDataSchema_def
        CurrentWeatherSchema_def)
  then obtain lf lf' where
    f1: "Field value_field Method_from_ts lf False False \<in> set fs"
    and f2: "Field raw_field Integer lf' False False \<in> set fs"
    and dist: "distinct (map declared_name fs)"
    and lf: "lf = Some src \<or> (lf = None \<and> value_field = src)" and lf': "lf' = Some src"
    by blast
  have g1: "snd (get_value data value_field lf) = Some (PInt T)"
    using lf assms(3,5) by (auto simp: get_value_def)
  have g2: "snd (get_value data raw_field lf') = Some (PInt T)"
    using lf' assms(3,4) by (auto simp: get_value_def)
  have "map_of r value_field = Some (PDatetime d)"
    by (rule unmarshal_field [OF assms(6) f1 dist g1 _ deserialize_from_ts [OF assms(2)]]) simp
  moreover have "map_of r raw_field = Some (PInt T)"
    by (rule unmarshal_field [OF assms(6) f2 dist g2]) simp_all
  ultimately show ?thesis by simp
qed

text \<open>
  C7, amended. For every integer timestamp \<open>T\<close> of the years 1 to 9999
  (\<open>-62135596800 \<le> T \<le> 253402300799\<close>) the converter gives a UTC instant whose
  timestamp is \<open>T\<close>; and for every field declared with the converter, a record loaded
  from a mapping that holds \<open>T\<close> under the source key (and no key named like the two
  target fields) has the instant under the field and \<open>T\<close> itself under the sibling
  integer field.
\<close>

theorem timestamp_roundtrip_and_siblings:
  assumes "- 62135596800 \<le> T" and "T \<le> 253402300799"
  shows "\<exists>d. dt_from_timestamp B (PInt T) (Some timezone_utc) = Inr d
           \<and> tzinfo d = Some timezone_utc
           \<and> timestamp B d = T
           \<and> (\<forall>(fs, value_field, raw_field, src) \<in> set timestamp_fields. \<forall>data r errs.
                 map_of data src = Some (PInt T)
                 \<and> map_of data raw_field = None
                 \<and> (value_field \<noteq> src \<longrightarrow> map_of data value_field = None)
                 \<and> unmarshal B fs data = Inr (r, errs)
                 \<longrightarrow> map_of r value_field = Some (PDatetime d)
                     \<and> map_of r raw_field = Some (PInt T))"
proof -
  from utc_roundtrip [OF assms, of B] obtain d where
    d: "utc_fromtimestamp T = Inr d" "tzinfo d = Some timezone_utc" "timestamp B d = T"
    by blast
  then have conv: "dt_from_timestamp B (PInt T) (Some timezone_utc) = Inr d"
    by (simp add: dt_from_timestamp_def fromtimestamp_def)
  have "\<forall>(fs, value_field, raw_field, src) \<in> set timestamp_fields. \<forall>data r errs.
                 map_of data src = Some (PInt T)
                 \<and> map_of data raw_field = None
                 \<and> (value_field \<noteq> src \<longrightarrow> map_of data value_field = None)
                 \<and> unmarshal B fs data = Inr (r, errs)
                 \<longrightarrow> map_of r value_field = Some (PDatetime d)
                     \<and> map_of r raw_field = Some (PInt T)"
    using siblings [OF _ conv] by blast
  with d conv show ?thesis by blast
qed

theorem timestamp_roundtrip_and_siblings_witness:
  "dt_from_timestamp plain_builtins (PInt 1500000000) (Some timezone_utc) = Inr instant_2017
 \<and> timestamp plain_builtins instant_2017 = 1500000000
 \<and> unmarshal plain_builtins ForecastDataSchema [(''dt'', PInt 1500000000)]
     = Inr ([(''dt_value'', PDatetime instant_2017), (''dt_timestamp'', PInt 1500000000)], [])"
proof -
  have conv: "dt_from_timestamp plain_builtins (PInt 1500000000) (Some timezone_utc) = Inr instant_2017"
    by (simp add: dt_from_timestamp_def fromtimestamp_def utc_fromtimestamp_def ord2ymd_def
        DI400Y_def DI100Y_def DI4Y_def Let_def instant_2017_def DAYS_BEFORE_MONTH_def
        DAYS_IN_MONTH_def)
  have load: "unmarshal plain_builtins ForecastDataSchema [(''dt'', PInt 1500000000)]
     = Inr ([(''dt_value'', PDatetime instant_2017), (''dt_timestamp'', PInt 1500000000)], [])"
    using conv
    by (simp add: ForecastDataSchema_def get_value_def Let_def store_def
        Method_deserialize_def from_ts_def)
  from timestamp_roundtrip_and_siblings [of 1500000000 plain_builtins] conv
  have "timestamp plain_builtins instant_2017 = 1500000000" by auto
  with conv load show ?thesis by simp
qed

end
